theory Spec2Isabelle
  imports Complex_Main
begin

section \<open>Dates\<close>

text \<open>
  A JavaScript \<open>Date\<close> is a number of milliseconds since 1970-01-01T00:00Z. The
  browser's time zone enters in two ways. \<open>tz\<close> is the offset in effect at the
  instant of the clock, in milliseconds: the wall clock shows UTC + \<open>tz\<close>.
  \<open>tzOfLocal\<close> gives the offset the zone has at a wall-clock time, which is how
  the browser turns a wall-clock time back into an instant (the instant is the
  wall-clock time minus that offset); where daylight saving changes, the two
  differ. \<open>addSession\<close> goes back 90 calendar days on the wall clock and is
  modelled with both. The statistics step by single days from a local midnight;
  they are modelled in a zone whose offset is \<open>tz\<close> on all the days they visit,
  where a day on the wall clock is \<open>msPerDay\<close> (so it is in zones without
  daylight saving, such as those of UTC+8, where the runs below take place).

  The program only ever builds a date string with
  \<open>toISOString().split('T')[0]\<close>, compares two such strings with \<open>===\<close> and
  parses one back with \<open>new Date(s)\<close>. The string \<open>YYYY-MM-DD\<close> is therefore
  represented by the number of the UTC day it names (days since 1970-01-01): two
  strings are equal exactly when the day numbers are, and \<open>new Date(s)\<close> of a
  date-only string is UTC midnight of that day.
\<close>

definition msPerDay :: int where
  "msPerDay = 86400000"

definition msPerHour :: int where
  "msPerHour = 3600000"

definition toISODate :: "int \<Rightarrow> int" where
  \<comment> \<open>\<open>d.toISOString().split('T')[0]\<close>: the UTC calendar day of the instant\<close>
  "toISODate t = t div msPerDay"

definition parseISODate :: "int \<Rightarrow> int" where
  \<comment> \<open>\<open>new Date(s.date)\<close>: UTC midnight of the day\<close>
  "parseISODate d = d * msPerDay"

definition localDate :: "int \<Rightarrow> int \<Rightarrow> int" where
  \<comment> \<open>the calendar day of the instant on the local clock\<close>
  "localDate z t = (t + z) div msPerDay"

definition getHours :: "int \<Rightarrow> int \<Rightarrow> nat" where
  \<comment> \<open>\<open>d.getHours()\<close>: hour of day on the local clock\<close>
  "getHours z t = nat (((t + z) mod msPerDay) div msPerHour)"

definition setHoursMidnight :: "int \<Rightarrow> int \<Rightarrow> int" where
  \<comment> \<open>\<open>d.setHours(0, 0, 0, 0)\<close>: local midnight of the local day\<close>
  "setHoursMidnight z t = t - (t + z) mod msPerDay"

definition setHoursEndOfDay :: "int \<Rightarrow> int \<Rightarrow> int" where
  \<comment> \<open>\<open>d.setHours(23, 59, 59, 999)\<close>\<close>
  "setHoursEndOfDay z t = setHoursMidnight z t + msPerDay - 1"

definition addDays :: "int \<Rightarrow> int \<Rightarrow> int" where
  \<comment> \<open>\<open>d.setDate(d.getDate() + k)\<close> in a zone of constant offset: same local time of
      day, \<open>k\<close> days later\<close>
  "addDays t k = t + k * msPerDay"

definition setDateBy :: "int \<Rightarrow> (int \<Rightarrow> int) \<Rightarrow> int \<Rightarrow> int \<Rightarrow> int" where
  \<comment> \<open>\<open>d.setDate(d.getDate() + k)\<close> in any zone: the wall clock of \<open>d\<close> (offset \<open>z\<close>)
      moves by \<open>k\<close> calendar days, and the zone's offset at the new wall-clock time
      (\<open>zl\<close>) turns it into the new instant\<close>
  "setDateBy z zl t k = (t + z + k * msPerDay) - zl (t + z + k * msPerDay)"

section \<open>Data model\<close>

datatype mode = pomodoro | shortBreak | longBreak

record Settings =
  pomodoroMinutes :: int
  shortBreakMinutes :: int
  longBreakMinutes :: int
  longBreakInterval :: int
  soundEnabled :: bool
  soundVolume :: int

record Session =
  date :: int
  hour :: nat
  duration :: int
  sessionType :: string
  timestamp :: int

text \<open>
  An item of \<open>localStorage\<close>: nothing under the key (\<open>getItem\<close> gives
  \<open>null\<close>), a text \<open>JSON.parse\<close> rejects, or the text \<open>JSON.stringify\<close>
  made of a value (\<open>JSON.parse\<close> gives the value back).
\<close>

datatype 'a item = Missing | Unparsable | Item 'a

text \<open>The object stored under the settings key: any subset of the six fields.\<close>

record SavedSettings =
  savedPomodoroMinutes :: "int option"
  savedShortBreakMinutes :: "int option"
  savedLongBreakMinutes :: "int option"
  savedLongBreakInterval :: "int option"
  savedSoundEnabled :: "bool option"
  savedSoundVolume :: "int option"

text \<open>The settings dialog: the text of each input and the state of the checkbox.\<close>

record Form =
  pomodoroMinutesValue :: string
  shortBreakMinutesValue :: string
  longBreakMinutesValue :: string
  longBreakIntervalValue :: string
  soundEnabledChecked :: bool
  soundVolumeValue :: string

text \<open>
  \<open>AppState\<close> (the first eight fields) together with what the program reaches in
  the browser: \<open>localStorage\<close> (two items, and whether \<open>getItem\<close> and
  \<open>setItem\<close> throw), the clock and the zone, the timers (\<open>intervals\<close>: the
  handles \<open>setInterval\<close> gave out and \<open>clearInterval\<close> has not cancelled;
  \<open>timeouts\<close>: the pending \<open>setMode(nextMode)\<close> callbacks, oldest first;
  \<open>nextHandle\<close>: the next handle), and a log of the calls to observe:
  \<open>chimes\<close>, the volume of every \<open>ALERT_SOUND.play\<close>, and
  \<open>completions\<close>, the argument of every \<open>complete\<close>.
\<close>

record World =
  currentMode :: mode
  isRunning :: bool
  timeRemaining :: int
  totalTime :: int
  timerInterval :: "nat option"
  completedPomodoros :: int
  settings :: Settings
  sessions :: "Session list"
  getItemThrows :: bool
  setItemThrows :: bool
  settingsItem :: "SavedSettings item"
  sessionsItem :: "Session list item"
  now :: int
  tz :: int
  tzOfLocal :: "int \<Rightarrow> int"
  intervals :: "nat list"
  timeouts :: "mode list"
  nextHandle :: nat
  chimes :: "rat list"
  completions :: "bool list"

definition defaultSettings :: Settings where
  "defaultSettings =
     \<lparr>pomodoroMinutes = 25, shortBreakMinutes = 5, longBreakMinutes = 15,
      longBreakInterval = 4, soundEnabled = True, soundVolume = 50\<rparr>"

section \<open>Storage manager\<close>

definition save :: "bool \<Rightarrow> 'a item \<Rightarrow> 'a \<Rightarrow> 'a item" where
  \<comment> \<open>\<open>setItem\<close> throws: the exception is caught and the item stays as it was\<close>
  "save throws old v = (if throws then old else Item v)"

definition load :: "bool \<Rightarrow> 'a item \<Rightarrow> 'a \<Rightarrow> 'a" where
  \<comment> \<open>\<open>data ? JSON.parse(data) : defaultValue\<close>, and \<open>defaultValue\<close> when
      \<open>getItem\<close> or \<open>JSON.parse\<close> throws\<close>
  "load throws it defaultValue =
     (if throws then defaultValue
      else case it of Missing \<Rightarrow> defaultValue | Unparsable \<Rightarrow> defaultValue | Item v \<Rightarrow> v)"

definition emptySaved :: SavedSettings where
  "emptySaved =
     \<lparr>savedPomodoroMinutes = None, savedShortBreakMinutes = None,
      savedLongBreakMinutes = None, savedLongBreakInterval = None,
      savedSoundEnabled = None, savedSoundVolume = None\<rparr>"

definition toSaved :: "Settings \<Rightarrow> SavedSettings" where
  "toSaved s =
     \<lparr>savedPomodoroMinutes = Some (pomodoroMinutes s),
      savedShortBreakMinutes = Some (shortBreakMinutes s),
      savedLongBreakMinutes = Some (longBreakMinutes s),
      savedLongBreakInterval = Some (longBreakInterval s),
      savedSoundEnabled = Some (soundEnabled s),
      savedSoundVolume = Some (soundVolume s)\<rparr>"

definition spread :: "Settings \<Rightarrow> SavedSettings \<Rightarrow> Settings" where
  \<comment> \<open>\<open>{ ...base, ...saved }\<close>\<close>
  "spread base saved =
     \<lparr>pomodoroMinutes = (case savedPomodoroMinutes saved of None \<Rightarrow> pomodoroMinutes base | Some v \<Rightarrow> v),
      shortBreakMinutes = (case savedShortBreakMinutes saved of None \<Rightarrow> shortBreakMinutes base | Some v \<Rightarrow> v),
      longBreakMinutes = (case savedLongBreakMinutes saved of None \<Rightarrow> longBreakMinutes base | Some v \<Rightarrow> v),
      longBreakInterval = (case savedLongBreakInterval saved of None \<Rightarrow> longBreakInterval base | Some v \<Rightarrow> v),
      soundEnabled = (case savedSoundEnabled saved of None \<Rightarrow> soundEnabled base | Some v \<Rightarrow> v),
      soundVolume = (case savedSoundVolume saved of None \<Rightarrow> soundVolume base | Some v \<Rightarrow> v)\<rparr>"

definition StorageManager_loadSettings :: "World \<Rightarrow> Settings" where
  \<comment> \<open>\<open>{ ...AppState.settings, ...this.load(KEYS.SETTINGS, {}) }\<close>\<close>
  "StorageManager_loadSettings w =
     spread (settings w) (load (getItemThrows w) (settingsItem w) emptySaved)"

definition StorageManager_saveSettings :: "Settings \<Rightarrow> World \<Rightarrow> World" where
  "StorageManager_saveSettings s w =
     w\<lparr>settingsItem := save (setItemThrows w) (settingsItem w) (toSaved s)\<rparr>"

definition loadSessions :: "World \<Rightarrow> Session list" where
  "loadSessions w = load (getItemThrows w) (sessionsItem w) []"

definition saveSessions :: "Session list \<Rightarrow> World \<Rightarrow> World" where
  "saveSessions ss w = w\<lparr>sessionsItem := save (setItemThrows w) (sessionsItem w) ss\<rparr>"

definition cutoff :: "World \<Rightarrow> int" where
  \<comment> \<open>\<open>cutoff = new Date(); cutoff.setDate(cutoff.getDate() - 90)\<close>\<close>
  "cutoff w = setDateBy (tz w) (tzOfLocal w) (now w) (- 90)"

definition addSession :: "Session \<Rightarrow> World \<Rightarrow> Session list \<times> World" where
  \<comment> \<open>returns \<open>filtered\<close>, and the browser after \<open>saveSessions(filtered)\<close>\<close>
  "addSession session w =
     (let sessions1 = loadSessions w @ [session];
          filtered = filter (\<lambda>s. parseISODate (date s) \<ge> cutoff w) sessions1
      in (filtered, saveSessions filtered w))"

section \<open>Timer controller\<close>

definition minutesOf :: "Settings \<Rightarrow> mode \<Rightarrow> int" where
  \<comment> \<open>\<open>getModeSettings()[mode].minutes\<close>\<close>
  "minutesOf s m =
     (case m of pomodoro \<Rightarrow> pomodoroMinutes s
      | shortBreak \<Rightarrow> shortBreakMinutes s
      | longBreak \<Rightarrow> longBreakMinutes s)"

definition clearTimer :: "World \<Rightarrow> World" where
  \<comment> \<open>\<open>if (AppState.timerInterval) { clearInterval(...); AppState.timerInterval = null; }\<close>;
      a handle 0 would be falsy\<close>
  "clearTimer w =
     (case timerInterval w of
        None \<Rightarrow> w
      | Some h \<Rightarrow>
          if h \<noteq> 0 then w\<lparr>intervals := removeAll h (intervals w), timerInterval := None\<rparr>
          else w)"

definition setMode :: "mode \<Rightarrow> World \<Rightarrow> World" where
  "setMode m w =
     clearTimer
       (w\<lparr>currentMode := m,
          totalTime := minutesOf (settings w) m * 60,
          timeRemaining := minutesOf (settings w) m * 60,
          isRunning := False\<rparr>)"

definition pause :: "World \<Rightarrow> World" where
  \<comment> \<open>\<open>if (!AppState.isRunning) return;\<close> comes first\<close>
  "pause w = (if \<not> isRunning w then w else clearTimer (w\<lparr>isRunning := False\<rparr>))"

definition jsRemainder :: "int \<Rightarrow> int \<Rightarrow> int option" where
  \<comment> \<open>\<open>a % b\<close> on integers: \<open>NaN\<close> (here \<open>None\<close>) for \<open>b = 0\<close>, otherwise the
      remainder of the truncated division, with the sign of \<open>a\<close>\<close>
  "jsRemainder a b = (if b = 0 then None else Some (sgn a * (\<bar>a\<bar> mod \<bar>b\<bar>)))"

definition nextModeOf :: "World \<Rightarrow> mode" where
  \<comment> \<open>the value of \<open>nextMode\<close> under \<open>// Determine next mode\<close>\<close>
  "nextModeOf w =
     (if currentMode w = pomodoro then
        (if jsRemainder (completedPomodoros w) (longBreakInterval (settings w)) = Some 0
         then longBreak else shortBreak)
      else pomodoro)"

definition playIfEnabled :: "World \<Rightarrow> World" where
  \<comment> \<open>\<open>if (AppState.settings.soundEnabled) ALERT_SOUND.play(AppState.settings.soundVolume / 100)\<close>;
      the quotient is kept exact\<close>
  "playIfEnabled w =
     (if soundEnabled (settings w)
      then w\<lparr>chimes := chimes w @ [of_int (soundVolume (settings w)) / 100]\<rparr>
      else w)"

definition newSession :: "World \<Rightarrow> Session" where
  \<comment> \<open>the object literal \<open>session\<close>; its three readings of the clock are one instant\<close>
  "newSession w =
     \<lparr>date = toISODate (now w),
      hour = getHours (tz w) (now w),
      duration = pomodoroMinutes (settings w),
      sessionType = ''pomodoro'',
      timestamp = now w\<rparr>"

definition recordSession :: "bool \<Rightarrow> World \<Rightarrow> World" where
  \<comment> \<open>the block under \<open>// Record session if it was a pomodoro and not skipped\<close>\<close>
  "recordSession skipped w =
     (if currentMode w = pomodoro \<and> \<not> skipped then
        (let w1 = w\<lparr>completedPomodoros := completedPomodoros w + 1\<rparr>;
             (filtered, w2) = addSession (newSession w1) w1
         in w2\<lparr>sessions := filtered\<rparr>)
      else w)"

definition completeTimer :: "bool \<Rightarrow> World \<Rightarrow> World" where
  \<comment> \<open>\<open>TimerController.complete(skipped)\<close>: the call is logged, then \<open>this.pause()\<close>,
      the sound, the session, and \<open>setTimeout(() => this.setMode(nextMode), 500)\<close>\<close>
  "completeTimer skipped w =
     (let w1 = pause (w\<lparr>completions := completions w @ [skipped]\<rparr>);
          w2 = playIfEnabled w1;
          w3 = recordSession skipped w2
      in w3\<lparr>timeouts := timeouts w3 @ [nextModeOf w3]\<rparr>)"

definition intervalCallback :: "World \<Rightarrow> World" where
  \<comment> \<open>the function \<open>start\<close> passes to \<open>setInterval\<close>\<close>
  "intervalCallback w =
     (let w1 = w\<lparr>timeRemaining := timeRemaining w - 1\<rparr>
      in if timeRemaining w1 \<le> 0 then completeTimer False w1 else w1)"

definition start :: "World \<Rightarrow> World" where
  \<comment> \<open>\<open>setInterval\<close> returns a handle no timer has had, never 0\<close>
  "start w =
     (if isRunning w then w
      else w\<lparr>isRunning := True,
             timerInterval := Some (nextHandle w),
             intervals := intervals w @ [nextHandle w],
             nextHandle := nextHandle w + 1\<rparr>)"

definition toggle :: "World \<Rightarrow> World" where
  "toggle w = (if isRunning w then pause w else start w)"

definition reset :: "World \<Rightarrow> World" where
  "reset w =
     (let w1 = pause w
      in w1\<lparr>timeRemaining := minutesOf (settings w1) (currentMode w1) * 60,
             totalTime := minutesOf (settings w1) (currentMode w1) * 60\<rparr>)"

definition skip :: "World \<Rightarrow> World" where
  "skip w = completeTimer True (pause w)"

text \<open>
  The browser's side of the timers. An interval fires only while its handle is
  active; one elapsed second lets every interval that was active at its start
  fire once. The oldest pending timeout runs \<open>setMode(nextMode)\<close>.
\<close>

definition fireInterval :: "nat \<Rightarrow> World \<Rightarrow> World" where
  "fireInterval h w = (if h \<in> set (intervals w) then intervalCallback w else w)"

definition tick :: "World \<Rightarrow> World" where
  "tick w = fold fireInterval (intervals w) w"

definition fireTimeout :: "World \<Rightarrow> World" where
  "fireTimeout w =
     (case timeouts w of
        [] \<Rightarrow> w
      | m # ms \<Rightarrow> setMode m (w\<lparr>timeouts := ms\<rparr>))"

section \<open>Settings dialog\<close>

text \<open>
  A JavaScript number that started as an integer: not a number, an integer-valued
  double, or an infinity.
\<close>

datatype number = NaN | Number int | PlusInfinity | MinusInfinity

text \<open>
  The double nearest to an integer: the integer itself up to 53 binary digits;
  beyond, it is rounded to 53 significant binary digits, a tie going to the even
  one, and from \<open>2^1024\<close> on the result is an infinity.
\<close>

function bitLength :: "int \<Rightarrow> nat" where
  "bitLength n = (if n \<le> 0 then 0 else Suc (bitLength (n div 2)))"
  by pat_completeness auto
termination
proof (relation "measure nat")
  show "wf (measure nat)" by simp
next
  fix n :: int
  assume "\<not> n \<le> 0"
  then have "n div 2 < n" by linarith
  then show "(n div 2, n) \<in> measure nat" using \<open>\<not> n \<le> 0\<close> by simp
qed

definition roundToDouble :: "int \<Rightarrow> number" where
  "roundToDouble n =
     (let a = \<bar>n\<bar>;
          e = bitLength a - 53;
          q = a div 2 ^ e;
          r = a mod 2 ^ e;
          m = (if 2 ^ e < 2 * r \<or> (2 * r = 2 ^ e \<and> odd q) then q + 1 else q) * 2 ^ e
      in if 2 ^ 1024 \<le> m then (if n < 0 then MinusInfinity else PlusInfinity)
         else Number (sgn n * m))"

text \<open>
  \<open>parseInt\<close> with no radix, on text of characters below U+0100: leading white
  space is dropped, then an optional sign, then \<open>0x\<close> or \<open>0X\<close> selects radix 16
  (otherwise 10), then the longest run of digits of the radix is read. No digit
  gives \<open>NaN\<close>; otherwise the result is the double nearest to the integer read.
\<close>

definition isWhiteSpace :: "char \<Rightarrow> bool" where
  "isWhiteSpace c =
     (c \<in> set [CHR 0x09, CHR 0x0A, CHR 0x0B, CHR 0x0C, CHR 0x0D, CHR 0x20, CHR 0xA0])"

definition digitValue :: "char \<Rightarrow> nat option" where
  "digitValue c =
     (let n = (of_char c :: nat)
      in if 48 \<le> n \<and> n \<le> 57 then Some (n - 48)
         else if 97 \<le> n \<and> n \<le> 122 then Some (n - 87)
         else if 65 \<le> n \<and> n \<le> 90 then Some (n - 55)
         else None)"

definition isDigitOf :: "nat \<Rightarrow> char \<Rightarrow> bool" where
  "isDigitOf r c = (case digitValue c of None \<Rightarrow> False | Some v \<Rightarrow> v < r)"

definition digitsValue :: "nat \<Rightarrow> string \<Rightarrow> int" where
  "digitsValue r z =
     foldl (\<lambda>a c. a * int r + (case digitValue c of None \<Rightarrow> 0 | Some v \<Rightarrow> int v)) 0 z"

definition parseInt :: "string \<Rightarrow> number" where
  "parseInt str =
     (let s = dropWhile isWhiteSpace str;
          negative = (take 1 s = ''-'');
          s1 = (if take 1 s = ''+'' \<or> take 1 s = ''-'' then drop 1 s else s);
          hex = (take 2 s1 = ''0x'' \<or> take 2 s1 = ''0X'');
          r = (if hex then 16 else 10);
          s2 = (if hex then drop 2 s1 else s1);
          z = takeWhile (isDigitOf r) s2
      in if z = [] then NaN
         else roundToDouble ((if negative then - 1 else 1) * digitsValue r z))"

definition orDefault :: "number \<Rightarrow> int \<Rightarrow> number" where
  \<comment> \<open>\<open>v || d\<close>: \<open>NaN\<close> and \<open>0\<close> are falsy\<close>
  "orDefault v d = (if v = NaN \<or> v = Number 0 then Number d else v)"

fun jsMax :: "number \<Rightarrow> number \<Rightarrow> number" where
  \<comment> \<open>\<open>Math.max(a, b)\<close>\<close>
  "jsMax NaN b = NaN"
| "jsMax a NaN = NaN"
| "jsMax PlusInfinity b = PlusInfinity"
| "jsMax a PlusInfinity = PlusInfinity"
| "jsMax MinusInfinity b = b"
| "jsMax a MinusInfinity = a"
| "jsMax (Number a) (Number b) = Number (max a b)"

fun jsMin :: "number \<Rightarrow> number \<Rightarrow> number" where
  \<comment> \<open>\<open>Math.min(a, b)\<close>\<close>
  "jsMin NaN b = NaN"
| "jsMin a NaN = NaN"
| "jsMin MinusInfinity b = MinusInfinity"
| "jsMin a MinusInfinity = MinusInfinity"
| "jsMin PlusInfinity b = b"
| "jsMin a PlusInfinity = a"
| "jsMin (Number a) (Number b) = Number (min a b)"

text \<open>
  \<open>String(n)\<close> of an integer below \<open>10^21\<close> in magnitude, where JavaScript writes
  all the digits; the settings shown in the dialog are such.
\<close>

definition digitChar :: "nat \<Rightarrow> char" where
  "digitChar d = char_of (48 + d)"

fun digitsOf :: "nat \<Rightarrow> string" where
  "digitsOf n =
     (if n < 10 then [digitChar n]
      else digitsOf (n div 10) @ [digitChar (n mod 10)])"

definition numberToString :: "int \<Rightarrow> string" where
  "numberToString i = (if i < 0 then CHR ''-'' # digitsOf (nat (- i)) else digitsOf (nat i))"

definition populateSettingsForm :: "Settings \<Rightarrow> Form" where
  "populateSettingsForm s =
     \<lparr>pomodoroMinutesValue = numberToString (pomodoroMinutes s),
      shortBreakMinutesValue = numberToString (shortBreakMinutes s),
      longBreakMinutesValue = numberToString (longBreakMinutes s),
      longBreakIntervalValue = numberToString (longBreakInterval s),
      soundEnabledChecked = soundEnabled s,
      soundVolumeValue = numberToString (soundVolume s)\<rparr>"

text \<open>
  The object \<open>newSettings\<close> of \<open>saveSettings\<close>, whose numeric fields hold what
  \<open>parseInt(...) || d\<close> and then \<open>Math.min\<close> and \<open>Math.max\<close> give.
\<close>

record NewSettings =
  newPomodoroMinutes :: number
  newShortBreakMinutes :: number
  newLongBreakMinutes :: number
  newLongBreakInterval :: number
  newSoundEnabled :: bool
  newSoundVolume :: number

definition readForm :: "Form \<Rightarrow> NewSettings" where
  \<comment> \<open>the object literal \<open>newSettings\<close>\<close>
  "readForm f =
     \<lparr>newPomodoroMinutes = orDefault (parseInt (pomodoroMinutesValue f)) 25,
      newShortBreakMinutes = orDefault (parseInt (shortBreakMinutesValue f)) 5,
      newLongBreakMinutes = orDefault (parseInt (longBreakMinutesValue f)) 15,
      newLongBreakInterval = orDefault (parseInt (longBreakIntervalValue f)) 4,
      newSoundEnabled = soundEnabledChecked f,
      newSoundVolume = orDefault (parseInt (soundVolumeValue f)) 50\<rparr>"

definition validate :: "NewSettings \<Rightarrow> NewSettings" where
  \<comment> \<open>the four assignments under \<open>// Validate\<close>\<close>
  "validate s =
     s\<lparr>newPomodoroMinutes := jsMin (Number 90) (jsMax (Number 1) (newPomodoroMinutes s)),
       newShortBreakMinutes := jsMin (Number 30) (jsMax (Number 1) (newShortBreakMinutes s)),
       newLongBreakMinutes := jsMin (Number 60) (jsMax (Number 1) (newLongBreakMinutes s)),
       newLongBreakInterval := jsMin (Number 8) (jsMax (Number 2) (newLongBreakInterval s))\<rparr>"

text \<open>
  \<open>Settings\<close> holds integers. \<open>newSettings\<close> becomes \<open>AppState.settings\<close> when
  its five numbers are integers; when one is not (the volume typed has so many
  digits that it reads as an infinity), there is no \<open>Settings\<close> for it, and the
  model does not follow the program: \<open>UIController_saveSettings\<close> is \<open>None\<close>.
\<close>

definition numberValue :: "number \<Rightarrow> int option" where
  "numberValue v = (case v of Number n \<Rightarrow> Some n | _ \<Rightarrow> None)"

definition toSettings :: "NewSettings \<Rightarrow> Settings option" where
  "toSettings s =
     (case (numberValue (newPomodoroMinutes s), numberValue (newShortBreakMinutes s),
            numberValue (newLongBreakMinutes s), numberValue (newLongBreakInterval s),
            numberValue (newSoundVolume s)) of
        (Some p, Some b, Some l, Some i, Some v) \<Rightarrow>
          Some \<lparr>pomodoroMinutes = p, shortBreakMinutes = b, longBreakMinutes = l,
                longBreakInterval = i, soundEnabled = newSoundEnabled s, soundVolume = v\<rparr>
      | _ \<Rightarrow> None)"

definition UIController_saveSettings :: "Form \<Rightarrow> World \<Rightarrow> World option" where
  "UIController_saveSettings f w =
     (case toSettings (validate (readForm f)) of
        None \<Rightarrow> None
      | Some newSettings \<Rightarrow>
          Some (let w1 = StorageManager_saveSettings newSettings (w\<lparr>settings := newSettings\<rparr>)
                in setMode (currentMode w1) w1))"

definition resetSettingsToDefaults :: "World \<Rightarrow> World" where
  "resetSettingsToDefaults w = w\<lparr>settings := defaultSettings\<rparr>"

definition UIController_init :: "World \<Rightarrow> World" where
  \<comment> \<open>\<open>loadSettings()\<close> and \<open>loadSessions()\<close>\<close>
  "UIController_init w =
     (let w1 = w\<lparr>settings := StorageManager_loadSettings w\<rparr>
      in w1\<lparr>sessions := loadSessions w1\<rparr>)"

section \<open>Statistics\<close>

definition isPomodoroOn :: "int \<Rightarrow> Session \<Rightarrow> bool" where
  \<comment> \<open>\<open>s.date === dateStr && s.type === 'pomodoro'\<close>\<close>
  "isPomodoroOn dateStr s = (date s = dateStr \<and> sessionType s = ''pomodoro'')"

definition hasSessionsOn :: "Session list \<Rightarrow> int \<Rightarrow> bool" where
  "hasSessionsOn ss dateStr = (\<exists>s \<in> set ss. isPomodoroOn dateStr s)"

definition sumDuration :: "Session list \<Rightarrow> int" where
  \<comment> \<open>\<open>reduce((sum, s) => sum + s.duration, 0)\<close>\<close>
  "sumDuration ss = foldl (\<lambda>sum s. sum + duration s) 0 ss"

definition todaySessions :: "World \<Rightarrow> Session list" where
  \<comment> \<open>\<open>updateTodayStats\<close>: today is \<open>new Date().toISOString().split('T')[0]\<close>\<close>
  "todaySessions w = filter (isPomodoroOn (toISODate (now w))) (sessions w)"

text \<open>
  The loop of \<open>calculateStreak\<close> ends: each pass either leaves the loop, or steps
  from a day with a session to the day before (fewer sessions remain at or before
  the day under the cursor), or steps off the day of \<open>today\<close>, once.
\<close>

lemma toISODate_addDays: "toISODate (addDays t k) = toISODate t + k"
  by (simp add: toISODate_def addDays_def msPerDay_def)

lemma length_filter_mono:
  "(\<And>x. x \<in> set xs \<Longrightarrow> P x \<Longrightarrow> Q x) \<Longrightarrow> length (filter P xs) \<le> length (filter Q xs)"
  by (induction xs) auto

lemma length_filter_less:
  assumes "\<And>x. x \<in> set xs \<Longrightarrow> P x \<Longrightarrow> Q x" and "\<exists>x \<in> set xs. Q x \<and> \<not> P x"
  shows "length (filter P xs) < length (filter Q xs)"
  using assms
proof (induction xs)
  case Nil
  then show ?case by simp
next
  case (Cons a xs)
  have mono: "length (filter P xs) \<le> length (filter Q xs)"
    using Cons.prems(1) by (intro length_filter_mono) auto
  show ?case
  proof (cases "Q a \<and> \<not> P a")
    case True
    then show ?thesis using mono by simp
  next
    case False
    then have "\<exists>x \<in> set xs. Q x \<and> \<not> P x" using Cons.prems(2) by auto
    then have "length (filter P xs) < length (filter Q xs)"
      using Cons.IH Cons.prems(1) by auto
    then show ?thesis using Cons.prems(1) by auto
  qed
qed

definition streakMeasure :: "Session list \<times> int \<times> int \<times> int \<Rightarrow> nat" where
  "streakMeasure = (\<lambda>(ss, today, checkDate, streak).
     2 * length (filter (\<lambda>s. date s \<le> toISODate checkDate \<and> sessionType s = ''pomodoro'') ss)
     + (if toISODate checkDate = toISODate today then 1 else 0))"

lemma streak_has_decreases:
  assumes "hasSessionsOn ss d"
  shows "length (filter (\<lambda>s. date s \<le> d - 1 \<and> sessionType s = ''pomodoro'') ss)
       < length (filter (\<lambda>s. date s \<le> d \<and> sessionType s = ''pomodoro'') ss)"
proof (rule length_filter_less)
  show "\<exists>x\<in>set ss. (date x \<le> d \<and> sessionType x = ''pomodoro'')
          \<and> \<not> (date x \<le> d - 1 \<and> sessionType x = ''pomodoro'')"
    using assms by (auto simp: hasSessionsOn_def isPomodoroOn_def)
qed auto

function streakLoop :: "Session list \<Rightarrow> int \<Rightarrow> int \<Rightarrow> int \<Rightarrow> int" where
  "streakLoop ss today checkDate streak =
     (if hasSessionsOn ss (toISODate checkDate)
      then streakLoop ss today (addDays checkDate (- 1)) (streak + 1)
      else if toISODate checkDate = toISODate today
      then streakLoop ss today (addDays checkDate (- 1)) streak
      else streak)"
  by pat_completeness auto
termination
proof (relation "measure streakMeasure")
  show "wf (measure streakMeasure)" by simp
next
  fix ss :: "Session list" and today checkDate streak :: int
  assume "hasSessionsOn ss (toISODate checkDate)"
  then show "((ss, today, addDays checkDate (- 1), streak + 1), (ss, today, checkDate, streak))
               \<in> measure streakMeasure"
    using streak_has_decreases[of ss "toISODate checkDate"]
    unfolding streakMeasure_def in_measure prod.case toISODate_addDays
    by (auto split: if_splits)
next
  fix ss :: "Session list" and today checkDate streak :: int
  assume "\<not> hasSessionsOn ss (toISODate checkDate)" "toISODate checkDate = toISODate today"
  then show "((ss, today, addDays checkDate (- 1), streak), (ss, today, checkDate, streak))
               \<in> measure streakMeasure"
    using length_filter_mono[of ss
        "\<lambda>s. date s \<le> toISODate today - 1 \<and> sessionType s = ''pomodoro''"
        "\<lambda>s. date s \<le> toISODate today \<and> sessionType s = ''pomodoro''"]
    unfolding streakMeasure_def in_measure prod.case toISODate_addDays
    by (auto split: if_splits)
qed

definition calculateStreak :: "World \<Rightarrow> int" where
  "calculateStreak w =
     (let today = setHoursMidnight (tz w) (now w)
      in streakLoop (sessions w) today today 0)"

text \<open>
  One bar of the focus chart. The \<open>label\<close> of the source's entry
  (\<open>toLocaleDateString\<close> of the day) is presentation and is left out.
\<close>

record DayEntry =
  entryDate :: int
  minutes :: int
  pomodoros :: nat

text \<open>
  \<open>hourlyData\<close> holds numbers; \<open>None\<close> is a slot without a number (a hole, or
  \<open>NaN\<close>), which only a session with an hour beyond 23 can make.
\<close>

record PeriodStats =
  totalPomodoros :: nat
  totalMinutes :: int
  dailyData :: "DayEntry list"
  hourlyData :: "int option list"

definition periodEnd :: "World \<Rightarrow> int" where
  "periodEnd w = setHoursEndOfDay (tz w) (now w)"

definition periodStart :: "int \<Rightarrow> World \<Rightarrow> int" where
  \<comment> \<open>\<open>startDate.setDate(startDate.getDate() - days + 1); startDate.setHours(0, 0, 0, 0)\<close>\<close>
  "periodStart days w = setHoursMidnight (tz w) (addDays (periodEnd w) (- days + 1))"

definition inPeriod :: "int \<Rightarrow> World \<Rightarrow> Session \<Rightarrow> bool" where
  "inPeriod days w s =
     (parseISODate (date s) \<ge> periodStart days w \<and> parseISODate (date s) \<le> periodEnd w
      \<and> sessionType s = ''pomodoro'')"

definition dayEntry :: "int \<Rightarrow> World \<Rightarrow> Session list \<Rightarrow> int \<Rightarrow> DayEntry" where
  \<comment> \<open>the body of the \<open>for\<close> loop, for one \<open>i\<close>\<close>
  "dayEntry days w periodSessions i =
     (let dateStr = toISODate (addDays (periodStart days w) i);
          daySessions = filter (\<lambda>s. date s = dateStr) periodSessions
      in \<lparr>entryDate = dateStr, minutes = sumDuration daySessions,
          pomodoros = length daySessions\<rparr>)"

definition addHour :: "int option list \<Rightarrow> Session \<Rightarrow> int option list" where
  \<comment> \<open>\<open>hourlyData[s.hour] += s.duration\<close>; past the end the array grows, and the new
      slot holds \<open>undefined + duration\<close>, not a number\<close>
  "addHour xs s =
     (if hour s < length xs
      then xs[hour s := map_option (\<lambda>v. v + duration s) (xs ! hour s)]
      else xs @ replicate (hour s - length xs) None @ [None])"

definition calculatePeriodStats :: "int \<Rightarrow> World \<Rightarrow> PeriodStats" where
  "calculatePeriodStats days w =
     (let periodSessions = filter (inPeriod days w) (sessions w)
      in \<lparr>totalPomodoros = length periodSessions,
          totalMinutes = sumDuration periodSessions,
          dailyData = map (\<lambda>i. dayEntry days w periodSessions (int i)) [0 ..< nat days],
          hourlyData = foldl addHour (replicate 24 (Some 0)) periodSessions\<rparr>)"

section \<open>The running program\<close>

text \<open>
  What can happen to the page: the user's clicks and keys, a timer of the browser
  firing, the clock moving, the zone and its offset changing, and
  \<open>localStorage\<close> starting or ceasing to throw. A save of the settings dialog
  that the model does not follow is left out of the runs.
\<close>

datatype event =
  Toggle
  | Reset
  | Skip
  | SelectMode mode
  | SaveSettings Form
  | ResetSettings
  | IntervalFires nat
  | Second
  | TimeoutFires
  | ClockIs int
  | ZoneIs int "int \<Rightarrow> int"
  | StorageThrows bool bool

fun step :: "event \<Rightarrow> World \<Rightarrow> World" where
  "step Toggle w = toggle w"
| "step Reset w = reset w"
| "step Skip w = skip w"
| "step (SelectMode m) w = setMode m w"
| "step (SaveSettings f) w =
     (case UIController_saveSettings f w of None \<Rightarrow> w | Some w' \<Rightarrow> w')"
| "step ResetSettings w = resetSettingsToDefaults w"
| "step (IntervalFires h) w = fireInterval h w"
| "step Second w = tick w"
| "step TimeoutFires w = fireTimeout w"
| "step (ClockIs t) w = w\<lparr>now := t\<rparr>"
| "step (ZoneIs z zl) w = w\<lparr>tz := z, tzOfLocal := zl\<rparr>"
| "step (StorageThrows g s) w = w\<lparr>getItemThrows := g, setItemThrows := s\<rparr>"

definition pageLoad ::
  "bool \<Rightarrow> bool \<Rightarrow> SavedSettings item \<Rightarrow> Session list item \<Rightarrow> int \<Rightarrow> int \<Rightarrow> World" where
  \<comment> \<open>the literal \<open>AppState\<close>, in a browser with the given storage and clock, in
      a zone of constant offset \<open>z\<close>\<close>
  "pageLoad g s storedSettings storedSessions t z =
     \<lparr>currentMode = pomodoro, isRunning = False, timeRemaining = 25 * 60,
      totalTime = 25 * 60, timerInterval = None, completedPomodoros = 0,
      settings = defaultSettings, sessions = [],
      getItemThrows = g, setItemThrows = s,
      settingsItem = storedSettings, sessionsItem = storedSessions,
      now = t, tz = z, tzOfLocal = (\<lambda>l. z), intervals = [], timeouts = [],
      nextHandle = 1,
      chimes = [], completions = []\<rparr>"

definition boot :: "World \<Rightarrow> World" where
  \<comment> \<open>the \<open>DOMContentLoaded\<close> handler\<close>
  "boot w = setMode pomodoro (UIController_init w)"

inductive reachable :: "World \<Rightarrow> bool" where
  booted: "reachable (boot (pageLoad g s storedSettings storedSessions t z))"
| stepped: "reachable w \<Longrightarrow> reachable (step e w)"

definition consistent :: "World \<Rightarrow> bool" where
  \<comment> \<open>the timer runs exactly when \<open>timerInterval\<close> holds the one active handle\<close>
  "consistent w =
     (0 < nextHandle w \<and>
      (case timerInterval w of
         None \<Rightarrow> \<not> isRunning w \<and> intervals w = []
       | Some h \<Rightarrow> isRunning w \<and> h \<noteq> 0 \<and> h < nextHandle w \<and> intervals w = [h]))"

section \<open>Example runs\<close>

text \<open>
  A first visit: nothing stored, the clock at 1970-01-01T00:00Z, the zone UTC. The
  page has loaded and the timer shows 25:00.
\<close>

definition quietStart :: World where
  "quietStart = boot (pageLoad False False Missing Missing 0 0)"

text \<open>Three pomodoros are done; the interval before a long break is 4.\<close>

definition threeDone :: World where
  "threeDone = quietStart\<lparr>completedPomodoros := 3\<rparr>"

text \<open>The user has pressed start.\<close>

definition running :: World where
  "running = step Toggle quietStart"

text \<open>
  Two days of work, seen in the zone \<open>z\<close>: the store holds a session dated
  2024-01-01 (day 19723) and one dated 2024-01-02 (day 19724), and none before;
  the page is loaded at 2024-01-02T06:30Z, which is 14:30 on 2024-01-02 in UTC+8.
\<close>

definition twoDaysIn :: "int \<Rightarrow> World" where
  "twoDaysIn z =
     boot (pageLoad False False Missing
       (Item [\<lparr>date = 19723, hour = 14, duration = 25, sessionType = ''pomodoro'',
               timestamp = 1704090600000\<rparr>,
              \<lparr>date = 19724, hour = 14, duration = 25, sessionType = ''pomodoro'',
               timestamp = 1704177000000\<rparr>])
       1704177000000 z)"

text \<open>
  The store holds one session of 30 minutes, ended at 2024-01-02T06:30Z (day 19724)
  in the hour 14 of the user's clock; the page is loaded at that instant in the
  zone \<open>z\<close>.
\<close>

definition oneSessionIn :: "int \<Rightarrow> World" where
  "oneSessionIn z =
     boot (pageLoad False False Missing
       (Item [\<lparr>date = 19724, hour = 14, duration = 30, sessionType = ''pomodoro'',
               timestamp = 1704177000000\<rparr>])
       1704177000000 z)"

text \<open>A first visit in UTC+8 at 07:00 local time on 2024-01-02 (2024-01-01T23:00Z).\<close>

definition earlyMorning :: World where
  "earlyMorning = boot (pageLoad False False Missing Missing 1704150000000 (8 * msPerHour))"

text \<open>The default settings with the volume slider at 0.\<close>

definition silent :: Settings where
  "silent = defaultSettings\<lparr>soundVolume := 0\<rparr>"



text \<open>
  New York on the evening of 2024-01-01: the wall clock shows 19:30, the instant is
  2024-01-02T00:30Z and the offset is -5 hours. Ninety days earlier on the wall
  clock, at 19:30 on 2023-10-03, daylight saving is on and the offset is -4 hours:
  that instant is 2023-10-03T23:30Z. The store holds a session dated 2023-10-03
  (day 19633, 91 days before the day 19724 of the clock) and one dated 2023-10-04.
\<close>

definition easternTime :: "int \<Rightarrow> int" where
  \<comment> \<open>the offset of the zone of New York at a wall-clock time from March 2023 to March
      2024: daylight saving ends when the wall clock reaches 02:00 on 2023-11-05\<close>
  "easternTime l = (if l < 1699149600000 then - 4 * msPerHour else - 5 * msPerHour)"

definition oldSession :: Session where
  "oldSession =
     \<lparr>date = 19633, hour = 9, duration = 25, sessionType = ''pomodoro'',
      timestamp = 1696338000000\<rparr>"

definition nextDaySession :: Session where
  "nextDaySession =
     \<lparr>date = 19634, hour = 20, duration = 25, sessionType = ''pomodoro'',
      timestamp = 1696379400000\<rparr>"

definition newYorkEvening :: World where
  "newYorkEvening =
     step (ZoneIs (- 5 * msPerHour) easternTime)
       (boot (pageLoad False False Missing (Item [oldSession, nextDaySession])
          1704155400000 (- 5 * msPerHour)))"

text \<open>
  The same instant and the same store in a browser set to UTC, where 90 days
  earlier on the wall clock is 2023-10-04T00:30Z, 90 times 24 hours before.
\<close>

definition utcEvening :: World where
  "utcEvening =
     boot (pageLoad False False Missing (Item [oldSession, nextDaySession]) 1704155400000 0)"

text \<open>
  The ranges of the settings: those the dialog clamps to, and 0 to 100 for the
  volume.
\<close>

definition validSettings :: "Settings \<Rightarrow> bool" where
  "validSettings s =
     (1 \<le> pomodoroMinutes s \<and> pomodoroMinutes s \<le> 90
      \<and> 1 \<le> shortBreakMinutes s \<and> shortBreakMinutes s \<le> 30
      \<and> 1 \<le> longBreakMinutes s \<and> longBreakMinutes s \<le> 60
      \<and> 2 \<le> longBreakInterval s \<and> longBreakInterval s \<le> 8
      \<and> 0 \<le> soundVolume s \<and> soundVolume s \<le> 100)"

section \<open>Facts about the timer\<close>

lemmas timer_defs = completeTimer_def pause_def clearTimer_def playIfEnabled_def
  recordSession_def addSession_def saveSessions_def nextModeOf_def

lemma jsRemainder_zero: "b \<noteq> 0 \<Longrightarrow> (jsRemainder a b = Some 0) = (a mod b = 0)"
proof -
  assume b: "b \<noteq> 0"
  have "(sgn a * (\<bar>a\<bar> mod \<bar>b\<bar>) = 0) = (\<bar>a\<bar> mod \<bar>b\<bar> = 0)"
    by (cases "a = 0") (auto simp: sgn_if)
  also have "\<dots> = (\<bar>b\<bar> dvd \<bar>a\<bar>)" by (simp add: dvd_eq_mod_eq_0)
  also have "\<dots> = (b dvd a)" by simp
  also have "\<dots> = (a mod b = 0)" by (simp add: dvd_eq_mod_eq_0)
  finally show ?thesis using b by (simp add: jsRemainder_def)
qed

lemma timeouts_complete:
  "timeouts (completeTimer skipped w) = timeouts w @
     [if currentMode w = pomodoro then
        (if jsRemainder (completedPomodoros w + (if skipped then 0 else 1))
              (longBreakInterval (settings w)) = Some 0
         then longBreak else shortBreak)
      else pomodoro]"
  by (simp add: timer_defs Let_def split: option.splits)

lemma setMode_fresh:
  "timeRemaining (setMode m w) = minutesOf (settings w) m * 60"
  "totalTime (setMode m w) = minutesOf (settings w) m * 60"
  "currentMode (setMode m w) = m" "\<not> isRunning (setMode m w)"
  by (simp_all add: setMode_def clearTimer_def split: option.splits)

lemma start_fields:
  "isRunning (start w)" "timeRemaining (start w) = timeRemaining w"
  "completions (start w) = completions w" "totalTime (start w) = totalTime w"
  by (simp_all add: start_def)

lemma complete_fields:
  "timeRemaining (completeTimer k w) = timeRemaining w"
  "completions (completeTimer k w) = completions w @ [k]"
  "\<not> isRunning (completeTimer k w)"
  "currentMode (completeTimer k w) = currentMode w"
  by (simp_all add: timer_defs Let_def split: option.splits)

lemma timer_fields_complete:
  "isRunning (completeTimer k w) = isRunning (pause w)"
  "timerInterval (completeTimer k w) = timerInterval (pause w)"
  "intervals (completeTimer k w) = intervals (pause w)"
  "nextHandle (completeTimer k w) = nextHandle (pause w)"
  by (simp_all add: timer_defs Let_def split: option.splits)

subsection \<open>The timer runs exactly when one interval is active\<close>

lemma consistent_setMode:
  "consistent w \<Longrightarrow>
     consistent (setMode m w) \<and> intervals (setMode m w) = []
     \<and> timerInterval (setMode m w) = None \<and> \<not> isRunning (setMode m w)"
  by (auto simp: consistent_def setMode_def clearTimer_def split: option.splits)

lemma consistent_pause:
  "consistent w \<Longrightarrow>
     consistent (pause w) \<and> intervals (pause w) = []
     \<and> timerInterval (pause w) = None \<and> \<not> isRunning (pause w)"
  by (auto simp: consistent_def pause_def clearTimer_def split: option.splits)

lemma consistent_start: "consistent w \<Longrightarrow> consistent (start w)"
  by (auto simp: consistent_def start_def split: option.splits)

lemma consistent_reset:
  "consistent w \<Longrightarrow>
     consistent (reset w) \<and> intervals (reset w) = []
     \<and> timerInterval (reset w) = None \<and> \<not> isRunning (reset w)"
  using consistent_pause[of w]
  by (auto simp: consistent_def reset_def Let_def split: option.splits)

lemma consistent_complete: "consistent w \<Longrightarrow> consistent (completeTimer k w)"
  using consistent_pause[of w]
  by (simp add: consistent_def timer_fields_complete)

lemma consistent_skip: "consistent w \<Longrightarrow> consistent (skip w)"
  by (simp add: skip_def consistent_complete consistent_pause)

lemma consistent_toggle: "consistent w \<Longrightarrow> consistent (toggle w)"
  by (simp add: toggle_def consistent_start consistent_pause)

lemma consistent_callback: "consistent w \<Longrightarrow> consistent (intervalCallback w)"
proof -
  assume c: "consistent w"
  have "consistent (w\<lparr>timeRemaining := timeRemaining w - 1\<rparr>)"
    using c by (simp add: consistent_def split: option.splits)
  then show ?thesis
    by (simp add: intervalCallback_def Let_def consistent_complete)
qed

lemma consistent_fireInterval: "consistent w \<Longrightarrow> consistent (fireInterval h w)"
  by (simp add: fireInterval_def consistent_callback)

lemma tick_consistent:
  "consistent w \<Longrightarrow> tick w = (if isRunning w then intervalCallback w else w)"
  by (auto simp: tick_def consistent_def fireInterval_def split: option.splits)

lemma consistent_tick: "consistent w \<Longrightarrow> consistent (tick w)"
  by (simp add: tick_consistent consistent_callback)

lemma consistent_fireTimeout: "consistent w \<Longrightarrow> consistent (fireTimeout w)"
proof (cases "timeouts w")
  case Nil
  then show "consistent w \<Longrightarrow> ?thesis" by (simp add: fireTimeout_def)
next
  case (Cons m ms)
  assume "consistent w"
  then have "consistent (w\<lparr>timeouts := ms\<rparr>)"
    by (simp add: consistent_def split: option.splits)
  then show ?thesis using Cons by (simp add: fireTimeout_def consistent_setMode)
qed

lemma consistent_saveSettings:
  assumes "consistent w" and "UIController_saveSettings f w = Some w'"
  shows "consistent w'"
proof -
  have "consistent (StorageManager_saveSettings s (w\<lparr>settings := s\<rparr>))" for s
    using assms(1)
    by (simp add: consistent_def StorageManager_saveSettings_def split: option.splits)
  then show ?thesis
    using assms(2)
    by (auto simp: UIController_saveSettings_def Let_def consistent_setMode
        split: option.splits)
qed

lemma consistent_step: "consistent w \<Longrightarrow> consistent (step e w)"
proof (cases e)
  case (ClockIs t)
  then show "consistent w \<Longrightarrow> ?thesis"
    by (simp add: consistent_def split: option.splits)
next
  case (ZoneIs z zl)
  then show "consistent w \<Longrightarrow> ?thesis"
    by (simp add: consistent_def split: option.splits)
next
  case (StorageThrows g s)
  then show "consistent w \<Longrightarrow> ?thesis"
    by (simp add: consistent_def split: option.splits)
next
  case ResetSettings
  then show "consistent w \<Longrightarrow> ?thesis"
    by (simp add: consistent_def resetSettingsToDefaults_def split: option.splits)
next
  case (SaveSettings f)
  then show "consistent w \<Longrightarrow> ?thesis"
    by (auto dest: consistent_saveSettings split: option.splits)
qed (simp_all add: consistent_toggle consistent_reset consistent_skip consistent_setMode
      consistent_fireInterval consistent_tick consistent_fireTimeout)

lemma consistent_boot: "consistent (boot (pageLoad g s a b t z))"
proof -
  have "consistent (UIController_init (pageLoad g s a b t z))"
    by (simp add: consistent_def UIController_init_def pageLoad_def Let_def)
  then show ?thesis by (simp add: boot_def consistent_setMode)
qed

lemma reachable_consistent: "reachable w \<Longrightarrow> consistent w"
  by (induction rule: reachable.induct) (simp_all add: consistent_boot consistent_step)

lemma consistent_intervals: "consistent w \<Longrightarrow> length (intervals w) \<le> 1"
  by (auto simp: consistent_def split: option.splits)

subsection \<open>Counting down\<close>

lemma ticks_running:
  "consistent w \<Longrightarrow> isRunning w \<Longrightarrow> int k < timeRemaining w \<Longrightarrow>
     (tick ^^ k) w = w\<lparr>timeRemaining := timeRemaining w - int k\<rparr>"
proof (induction k)
  case 0
  then show ?case by simp
next
  case (Suc k)
  let ?v = "w\<lparr>timeRemaining := timeRemaining w - int k\<rparr>"
  have prev: "(tick ^^ k) w = ?v" using Suc by simp
  have cons: "consistent ?v"
    using Suc.prems(1) by (simp add: consistent_def split: option.splits)
  have "tick ?v = intervalCallback ?v"
    using cons Suc.prems(2) by (simp add: tick_consistent)
  also have "\<dots> = w\<lparr>timeRemaining := timeRemaining w - int (Suc k)\<rparr>"
    using Suc.prems(3) by (simp add: intervalCallback_def Let_def)
  finally show ?case using prev by simp
qed

lemma ticks_stopped: "consistent w \<Longrightarrow> \<not> isRunning w \<Longrightarrow> (tick ^^ k) w = w"
  by (induction k) (simp_all add: tick_consistent)

lemma last_tick:
  assumes "consistent w" "isRunning w" "timeRemaining w = 1"
  shows "tick w = completeTimer False (w\<lparr>timeRemaining := 0\<rparr>)"
  using assms by (simp add: tick_consistent intervalCallback_def Let_def)

lemma ticks_to_completion:
  assumes c: "consistent w" and r: "isRunning w" and pos: "1 \<le> timeRemaining w"
    and n: "nat (timeRemaining w) \<le> n"
  shows "(tick ^^ n) w = completeTimer False (w\<lparr>timeRemaining := 0\<rparr>)"
proof -
  define k where "k = nat (timeRemaining w) - 1"
  define v where "v = w\<lparr>timeRemaining := 1\<rparr>"
  have k: "int k < timeRemaining w" "timeRemaining w - int k = 1" "nat (timeRemaining w) = Suc k"
    using pos by (simp_all add: k_def)
  have "(tick ^^ k) w = v" using ticks_running[OF c r k(1)] k(2) by (simp add: v_def)
  moreover have cv: "consistent v" "isRunning v" "timeRemaining v = 1"
    using c r by (simp_all add: v_def consistent_def split: option.splits)
  ultimately have "(tick ^^ Suc k) w = completeTimer False (v\<lparr>timeRemaining := 0\<rparr>)"
    using last_tick[OF cv] by simp
  then have reached: "(tick ^^ Suc k) w = completeTimer False (w\<lparr>timeRemaining := 0\<rparr>)"
    by (simp add: v_def)
  have "consistent (w\<lparr>timeRemaining := 0\<rparr>)"
    using c by (simp add: consistent_def split: option.splits)
  then have stop: "consistent (completeTimer False (w\<lparr>timeRemaining := 0\<rparr>))"
    by (rule consistent_complete)
  obtain j where "n = j + Suc k" using n k(3) by (metis le_Suc_ex add.commute)
  then have "(tick ^^ n) w = (tick ^^ j) ((tick ^^ Suc k) w)"
    by (simp only: funpow_add o_apply)
  then show ?thesis using reached ticks_stopped[OF stop complete_fields(3)] by simp
qed

lemma quietStart_facts:
  "consistent quietStart" "\<not> isRunning quietStart"
  "timeRemaining quietStart = 1500" "totalTime quietStart = 1500"
  "completions quietStart = []" "chimes quietStart = []" "timeouts quietStart = []"
  "currentMode quietStart = pomodoro" "settings quietStart = defaultSettings"
  "completedPomodoros quietStart = 0"
  by (simp_all add: quietStart_def boot_def pageLoad_def UIController_init_def
      StorageManager_loadSettings_def loadSessions_def load_def spread_def emptySaved_def
      defaultSettings_def setMode_def minutesOf_def clearTimer_def consistent_def Let_def)

section \<open>The claims about the timer\<close>

text \<open>
  Claim C1, as the code has it: every call of \<open>complete(skipped)\<close> plays the chime
  exactly when \<open>soundEnabled\<close> is true, whatever the mode and whether or not the
  completion was skipped, and the volume passed is \<open>soundVolume / 100\<close>. (The claim
  asks for silence on a break and on a skip; the code tests \<open>soundEnabled\<close> alone,
  before it looks at the mode.)
\<close>

theorem complete_chime:
  "chimes (completeTimer skipped w) =
     (if soundEnabled (settings w)
      then chimes w @ [of_int (soundVolume (settings w)) / 100]
      else chimes w)"
  by (simp add: timer_defs Let_def split: option.splits)

theorem complete_chime_witness:
  "soundEnabled (settings quietStart) \<and> chimes (completeTimer False quietStart) = [1 / 2]"
  using complete_chime[of False quietStart]
  by (simp add: quietStart_facts defaultSettings_def)

text \<open>
  With the sound enabled, the end of a short break plays the chime, and so does a
  skipped pomodoro.
\<close>

theorem complete_chime_counterexample:
  "currentMode (setMode shortBreak quietStart) = shortBreak
   \<and> chimes (setMode shortBreak quietStart) = []
   \<and> chimes (completeTimer False (setMode shortBreak quietStart)) = [1 / 2]
   \<and> currentMode quietStart = pomodoro
   \<and> chimes quietStart = []
   \<and> chimes (completeTimer True quietStart) = [1 / 2]"
  by (simp add: quietStart_def boot_def pageLoad_def UIController_init_def
      StorageManager_loadSettings_def loadSessions_def load_def spread_def emptySaved_def
      defaultSettings_def setMode_def minutesOf_def timer_defs Let_def)

text \<open>
  Claim C2: from a state of the timer with time on the clock
  (\<open>1 \<le> timeRemaining \<le> totalTime\<close>, as \<open>setMode\<close> and \<open>reset\<close> leave it with
  \<open>timeRemaining = totalTime = minutes * 60\<close>), \<open>start()\<close> and then one tick per
  second: before \<open>timeRemaining\<close> ticks have passed the countdown has gone down by
  the number of ticks and \<open>complete\<close> has not been called; the tick that brings
  the countdown to 0 calls \<open>complete(false)\<close>, once; and after \<open>totalTime\<close> ticks
  the countdown is 0 and that call is still the only one.
\<close>

theorem start_then_ticks:
  assumes "consistent w" and "1 \<le> timeRemaining w" and "timeRemaining w \<le> totalTime w"
  shows "(\<forall>k. int k < timeRemaining w \<longrightarrow>
            timeRemaining ((tick ^^ k) (start w)) = timeRemaining w - int k
            \<and> completions ((tick ^^ k) (start w)) = completions w)
       \<and> timeRemaining ((tick ^^ nat (timeRemaining w)) (start w)) = 0
       \<and> completions ((tick ^^ nat (timeRemaining w)) (start w)) = completions w @ [False]
       \<and> timeRemaining ((tick ^^ nat (totalTime w)) (start w)) = 0
       \<and> completions ((tick ^^ nat (totalTime w)) (start w)) = completions w @ [False]"
proof -
  have c: "consistent (start w)" using assms(1) by (rule consistent_start)
  have early: "timeRemaining ((tick ^^ k) (start w)) = timeRemaining w - int k
            \<and> completions ((tick ^^ k) (start w)) = completions w"
    if "int k < timeRemaining w" for k
    using ticks_running[OF c start_fields(1), of k] that by (simp add: start_fields)
  have late: "(tick ^^ n) (start w) = completeTimer False ((start w)\<lparr>timeRemaining := 0\<rparr>)"
    if "nat (timeRemaining w) \<le> n" for n
    using ticks_to_completion[OF c start_fields(1), of n] assms(2) that
    by (simp add: start_fields)
  have "nat (timeRemaining w) \<le> nat (totalTime w)" using assms(3) by simp
  then show ?thesis
    using early late[of "nat (timeRemaining w)"] late[of "nat (totalTime w)"]
    by (simp add: complete_fields start_fields)
qed

theorem start_then_ticks_witness:
  "consistent quietStart \<and> timeRemaining quietStart = 1500 \<and> totalTime quietStart = 1500
   \<and> timeRemaining ((tick ^^ 1499) (start quietStart)) = 1
   \<and> completions ((tick ^^ 1499) (start quietStart)) = []
   \<and> timeRemaining ((tick ^^ 1500) (start quietStart)) = 0
   \<and> completions ((tick ^^ 1500) (start quietStart)) = [False]"
proof -
  have h: "consistent quietStart" "1 \<le> timeRemaining quietStart"
    "timeRemaining quietStart \<le> totalTime quietStart"
    by (simp_all add: quietStart_facts)
  have "int 1499 < timeRemaining quietStart" by (simp add: quietStart_facts)
  then show ?thesis
    using start_then_ticks[OF h] by (simp add: quietStart_facts)
qed

text \<open>
  Claim C3: \<open>complete(skipped)\<close> schedules \<open>setMode(nextMode)\<close>, where after a
  pomodoro \<open>nextMode\<close> is the long break exactly when the count of completed
  pomodoros (one more than before, unless the pomodoro was skipped) is 0 modulo
  \<open>longBreakInterval\<close>, and the short break otherwise, and after either break
  \<open>nextMode\<close> is the pomodoro. So with \<open>longBreakInterval - 1\<close> pomodoros done,
  finishing one more leads to the long break, and finishing one that does not bring
  the count to a multiple leads to the short break. (\<open>longBreakInterval\<close> is not 0:
  the settings dialog keeps it between 2 and 8.)
\<close>

theorem complete_nextMode:
  assumes "longBreakInterval (settings w) \<noteq> 0"
  shows "timeouts (completeTimer skipped w) = timeouts w @
           [if currentMode w = pomodoro then
              (if (completedPomodoros w + (if skipped then 0 else 1))
                    mod longBreakInterval (settings w) = 0
               then longBreak else shortBreak)
            else pomodoro]
       \<and> (currentMode w = pomodoro
            \<and> completedPomodoros w = longBreakInterval (settings w) - 1
          \<longrightarrow> last (timeouts (completeTimer False w)) = longBreak)
       \<and> (currentMode w = pomodoro
            \<and> (completedPomodoros w + 1) mod longBreakInterval (settings w) \<noteq> 0
          \<longrightarrow> last (timeouts (completeTimer False w)) = shortBreak)"
  using assms by (simp add: timeouts_complete jsRemainder_zero)

theorem complete_nextMode_witness:
  "longBreakInterval (settings threeDone) \<noteq> 0
   \<and> currentMode threeDone = pomodoro
   \<and> completedPomodoros threeDone = longBreakInterval (settings threeDone) - 1
   \<and> timeouts (completeTimer False threeDone) = [longBreak]
   \<and> timeouts (completeTimer False quietStart) = [shortBreak]
   \<and> timeouts (completeTimer False (setMode longBreak threeDone)) = [pomodoro]"
proof -
  have three: "longBreakInterval (settings threeDone) = 4" "currentMode threeDone = pomodoro"
    "completedPomodoros threeDone = 3" "timeouts threeDone = []"
    by (simp_all add: threeDone_def quietStart_facts defaultSettings_def)
  have brk: "longBreakInterval (settings (setMode longBreak threeDone)) = 4"
    "currentMode (setMode longBreak threeDone) = longBreak"
    "timeouts (setMode longBreak threeDone) = []"
    by (simp_all add: setMode_def clearTimer_def threeDone_def quietStart_facts
        defaultSettings_def split: option.splits)
  have quiet: "longBreakInterval (settings quietStart) = 4"
    by (simp add: quietStart_facts defaultSettings_def)
  show ?thesis
    using complete_nextMode[of threeDone False] complete_nextMode[of quietStart False]
      complete_nextMode[of "setMode longBreak threeDone" False]
    by (simp add: three brk quiet quietStart_facts defaultSettings_def)
qed

text \<open>
  Claim C6: in every state the running program can reach, at most one tick source
  is active, and after \<open>setMode\<close>, \<open>pause\<close> or \<open>reset\<close>, whether or not the
  timer was running, none is: \<open>timerInterval\<close> is \<open>null\<close> and the timer is not
  running. (\<open>pause\<close>, and with it \<open>reset\<close>, returns at once when the timer is
  not running; in a reachable state there is then no tick source to cancel.)
\<close>

theorem tick_source_cancelled:
  assumes "reachable w"
  shows "length (intervals w) \<le> 1
       \<and> intervals (setMode m w) = [] \<and> timerInterval (setMode m w) = None
       \<and> \<not> isRunning (setMode m w)
       \<and> intervals (pause w) = [] \<and> timerInterval (pause w) = None
       \<and> \<not> isRunning (pause w)
       \<and> intervals (reset w) = [] \<and> timerInterval (reset w) = None
       \<and> \<not> isRunning (reset w)"
  using reachable_consistent[OF assms] consistent_setMode[of w m] consistent_pause[of w]
    consistent_reset[of w] consistent_intervals[of w]
  by simp

theorem tick_source_cancelled_witness:
  "reachable running \<and> isRunning running \<and> intervals running = [1]
   \<and> intervals (setMode shortBreak running) = []
   \<and> intervals (pause running) = []
   \<and> intervals (reset running) = []
   \<and> reachable quietStart \<and> \<not> isRunning quietStart
   \<and> intervals (pause quietStart) = []"
proof -
  have q: "reachable quietStart" unfolding quietStart_def by (rule reachable.booted)
  then have r: "reachable running" unfolding running_def by (rule reachable.stepped)
  have "isRunning running" "intervals running = [1]"
    by (simp_all add: running_def toggle_def start_def quietStart_facts quietStart_def
        boot_def pageLoad_def UIController_init_def setMode_def clearTimer_def Let_def)
  then show ?thesis
    using q r tick_source_cancelled[OF r, of shortBreak] tick_source_cancelled[OF q, of pomodoro]
    by (simp add: quietStart_facts)
qed

section \<open>Facts about dates\<close>

lemma setHoursMidnight_local: "setHoursMidnight z t = localDate z t * msPerDay - z"
proof -
  have "(t + z) - (t + z) mod msPerDay = (t + z) div msPerDay * msPerDay"
    by (simp add: minus_mod_eq_div_mult)
  then show ?thesis by (simp add: setHoursMidnight_def localDate_def)
qed

lemma div_shift_west:
  fixes l z d :: int
  assumes "0 \<le> - z" "- z < d"
  shows "(l * d - z) div d = l"
proof -
  have "(l * d - z) div d = (- z + l * d) div d" by (simp add: algebra_simps)
  also have "\<dots> = (- z) div d + l" using assms by (subst div_mult_self1) auto
  also have "(- z) div d = 0" using assms by simp
  finally show ?thesis by simp
qed

lemma div_shift_east:
  fixes l z d :: int
  assumes "0 < z" "z < d"
  shows "(l * d - z) div d = l - 1"
proof -
  have "(l * d - z) div d = ((d - z) + (l - 1) * d) div d" by (simp add: algebra_simps)
  also have "\<dots> = (d - z) div d + (l - 1)" using assms by (subst div_mult_self1) auto
  also have "(d - z) div d = 0" using assms by simp
  finally show ?thesis by simp
qed

text \<open>
  The day \<open>calculateStreak\<close> and \<open>calculatePeriodStats\<close> take for a local
  midnight is the UTC day of that midnight: the local day in UTC and west of it,
  the day before east of it.
\<close>

lemma midnight_day_in_zone:
  assumes "- msPerDay < z" "z < msPerDay"
  shows "toISODate (setHoursMidnight z t) = (if 0 < z then localDate z t - 1 else localDate z t)"
  using assms div_shift_west[of z msPerDay "localDate z t"]
    div_shift_east[of z msPerDay "localDate z t"]
  by (auto simp: toISODate_def setHoursMidnight_local)

lemma getHours_range: "getHours z t < 24"
proof -
  have "0 \<le> (t + z) mod msPerDay" "(t + z) mod msPerDay < 24 * msPerHour"
    by (simp_all add: msPerDay_def msPerHour_def)
  then have "(t + z) mod msPerDay div msPerHour < 24"
    by (simp add: msPerHour_def div_less_iff_less_mult)
  then show ?thesis by (simp add: getHours_def)
qed

section \<open>Facts about the statistics\<close>

lemma streakLoop_walk:
  "toISODate c < toISODate today \<Longrightarrow>
     \<exists>m\<ge>0. streakLoop ss today c k = k + m
       \<and> (\<forall>i. 0 \<le> i \<and> i < m \<longrightarrow> hasSessionsOn ss (toISODate c - i))
       \<and> \<not> hasSessionsOn ss (toISODate c - m)"
proof (induction ss today c k rule: streakLoop.induct)
  case (1 ss today c k)
  show ?case
  proof (cases "hasSessionsOn ss (toISODate c)")
    case False
    then have "streakLoop ss today c k = k" using "1.prems" by simp
    then show ?thesis using False by (intro exI[of _ 0]) auto
  next
    case True
    have before: "toISODate (addDays c (- 1)) < toISODate today"
      using "1.prems" by (simp add: toISODate_addDays)
    obtain m where m: "0 \<le> m" "streakLoop ss today (addDays c (- 1)) (k + 1) = k + 1 + m"
      "\<forall>i. 0 \<le> i \<and> i < m \<longrightarrow> hasSessionsOn ss (toISODate (addDays c (- 1)) - i)"
      "\<not> hasSessionsOn ss (toISODate (addDays c (- 1)) - m)"
      using "1.IH"(1)[OF True before] by auto
    have eq: "streakLoop ss today c k = k + (m + 1)" using True m(2) by simp
    have run: "hasSessionsOn ss (toISODate c - i)" if "0 \<le> i" "i < m + 1" for i
    proof (cases "i = 0")
      case True
      then show ?thesis using \<open>hasSessionsOn ss (toISODate c)\<close> by simp
    next
      case False
      then have "0 \<le> i - 1 \<and> i - 1 < m" using that by simp
      then have "hasSessionsOn ss (toISODate (addDays c (- 1)) - (i - 1))"
        using m(3) by blast
      then show ?thesis by (simp add: toISODate_addDays)
    qed
    have stop: "\<not> hasSessionsOn ss (toISODate c - (m + 1))"
      using m(4) by (simp add: toISODate_addDays algebra_simps)
    show ?thesis using eq run stop m(1) by (intro exI[of _ "m + 1"]) simp
  qed
qed

text \<open>
  The walk of \<open>calculateStreak\<close>, from the day \<open>t\<close> it takes for today: it
  starts at \<open>t\<close>, or at the day before when \<open>t\<close> has no session, and counts the
  days with a session down to the first day without one.
\<close>

lemma calculateStreak_walk:
  fixes w :: World
  defines "t \<equiv> toISODate (setHoursMidnight (tz w) (now w))"
  defines "firstDay \<equiv> (if hasSessionsOn (sessions w) t then t else t - 1)"
  shows "0 \<le> calculateStreak w
       \<and> (\<forall>i. 0 \<le> i \<and> i < calculateStreak w \<longrightarrow> hasSessionsOn (sessions w) (firstDay - i))
       \<and> \<not> hasSessionsOn (sessions w) (firstDay - calculateStreak w)"
proof -
  let ?ss = "sessions w" and ?c = "setHoursMidnight (tz w) (now w)"
  have before: "toISODate (addDays ?c (- 1)) < toISODate ?c"
    by (simp add: toISODate_addDays)
  show ?thesis
  proof (cases "hasSessionsOn ?ss t")
    case False
    obtain m where m: "0 \<le> m" "streakLoop ?ss ?c (addDays ?c (- 1)) 0 = 0 + m"
      "\<forall>i. 0 \<le> i \<and> i < m \<longrightarrow> hasSessionsOn ?ss (toISODate (addDays ?c (- 1)) - i)"
      "\<not> hasSessionsOn ?ss (toISODate (addDays ?c (- 1)) - m)"
      using streakLoop_walk[OF before, of ?ss 0] by auto
    have "calculateStreak w = m"
      using False m(2) by (simp add: calculateStreak_def t_def Let_def)
    then show ?thesis using False m by (simp add: firstDay_def t_def toISODate_addDays)
  next
    case True
    obtain m where m: "0 \<le> m" "streakLoop ?ss ?c (addDays ?c (- 1)) (0 + 1) = 0 + 1 + m"
      "\<forall>i. 0 \<le> i \<and> i < m \<longrightarrow> hasSessionsOn ?ss (toISODate (addDays ?c (- 1)) - i)"
      "\<not> hasSessionsOn ?ss (toISODate (addDays ?c (- 1)) - m)"
      using streakLoop_walk[OF before, of ?ss "0 + 1"] by auto
    have eq: "calculateStreak w = m + 1"
      using True m(2) by (simp add: calculateStreak_def t_def Let_def)
    have run: "hasSessionsOn ?ss (t - i)" if "0 \<le> i" "i < m + 1" for i
    proof (cases "i = 0")
      case True
      then show ?thesis using \<open>hasSessionsOn ?ss t\<close> by simp
    next
      case False
      then have "0 \<le> i - 1 \<and> i - 1 < m" using that by simp
      then have "hasSessionsOn ?ss (toISODate (addDays ?c (- 1)) - (i - 1))"
        using m(3) by blast
      then show ?thesis by (simp add: toISODate_addDays t_def)
    qed
    have stop: "\<not> hasSessionsOn ?ss (t - (m + 1))"
      using m(4) by (simp add: toISODate_addDays algebra_simps t_def)
    show ?thesis using eq run stop m(1) True by (simp add: firstDay_def)
  qed
qed

text \<open>
  The daily series is dense: one entry for each of \<open>days\<close> consecutive days, in
  order, from the day the code takes for the first of the window. The hourly
  series has 24 slots when every stored hour is below 24, as \<open>getHours\<close> is.
\<close>

lemma dailyData_dense:
  "map entryDate (dailyData (calculatePeriodStats days w))
     = map (\<lambda>i. toISODate (periodStart days w) + int i) [0 ..< nat days]"
  by (simp add: calculatePeriodStats_def dayEntry_def Let_def toISODate_addDays)

lemma length_addHour: "hour s < length xs \<Longrightarrow> length (addHour xs s) = length xs"
  by (simp add: addHour_def)

lemma length_foldl_addHour:
  "\<forall>s \<in> set ss. hour s < length xs \<Longrightarrow> length (foldl addHour xs ss) = length xs"
  by (induction ss arbitrary: xs) (simp_all add: length_addHour)

lemma hourlyData_length:
  assumes "\<forall>s \<in> set (sessions w). hour s < 24"
  shows "length (hourlyData (calculatePeriodStats days w)) = 24"
  using assms
    length_foldl_addHour[of "filter (inPeriod days w) (sessions w)" "replicate 24 (Some 0)"]
  by (simp add: calculatePeriodStats_def Let_def)

text \<open>In the zone UTC the two example runs come out as the claims C4 and C5 say.\<close>

lemma calculateStreak_in_utc: "calculateStreak (twoDaysIn 0) = 2"
  by code_simp

lemma calculatePeriodStats_in_utc:
  "dailyData (calculatePeriodStats 7 (oneSessionIn 0)) =
     [\<lparr>entryDate = 19718, minutes = 0, pomodoros = 0\<rparr>,
      \<lparr>entryDate = 19719, minutes = 0, pomodoros = 0\<rparr>,
      \<lparr>entryDate = 19720, minutes = 0, pomodoros = 0\<rparr>,
      \<lparr>entryDate = 19721, minutes = 0, pomodoros = 0\<rparr>,
      \<lparr>entryDate = 19722, minutes = 0, pomodoros = 0\<rparr>,
      \<lparr>entryDate = 19723, minutes = 0, pomodoros = 0\<rparr>,
      \<lparr>entryDate = 19724, minutes = 30, pomodoros = 1\<rparr>]"
  by code_simp

section \<open>Facts about the settings dialog\<close>

lemma of_char_digit: "d < 10 \<Longrightarrow> (of_char (digitChar d) :: nat) = 48 + d"
  by (simp add: digitChar_def)

lemma digitValue_digit: "d < 10 \<Longrightarrow> digitValue (digitChar d) = Some d"
  by (simp add: digitValue_def of_char_digit Let_def)

lemma isDigitOf_digit: "d < 10 \<Longrightarrow> isDigitOf 10 (digitChar d)"
  by (simp add: isDigitOf_def digitValue_digit)

lemma space_code: "isWhiteSpace c \<Longrightarrow> (of_char c :: nat) \<le> 32 \<or> (of_char c :: nat) = 160"
  by (auto simp: isWhiteSpace_def)

lemma digit_not_space: "d < 10 \<Longrightarrow> \<not> isWhiteSpace (digitChar d)"
  using space_code[of "digitChar d"] by (auto simp: of_char_digit)

lemma digit_code_neq:
  assumes "d < 10" and "(of_char c :: nat) < 48 \<or> 57 < (of_char c :: nat)"
  shows "digitChar d \<noteq> c"
proof
  assume "digitChar d = c"
  then have "(of_char c :: nat) = 48 + d" using assms(1) of_char_digit by auto
  then show False using assms by auto
qed

lemma digit_not_sign:
  assumes "d < 10"
  shows "digitChar d \<noteq> CHR ''-''" "digitChar d \<noteq> CHR ''+''"
    "digitChar d \<noteq> CHR ''x''" "digitChar d \<noteq> CHR ''X''"
  by (rule digit_code_neq[OF assms], simp)+

declare digitsOf.simps [simp del]

declare bitLength.simps [simp del]

lemma bitLength_le: "a < 2 ^ k \<Longrightarrow> bitLength a \<le> k"
proof (induction k arbitrary: a)
  case 0
  then show ?case by (subst bitLength.simps) simp
next
  case (Suc k)
  show ?case
  proof (cases "a \<le> 0")
    case True
    then show ?thesis by (subst bitLength.simps) simp
  next
    case False
    have "a div 2 < 2 ^ k" using Suc.prems by auto
    then have "bitLength (a div 2) \<le> k" by (rule Suc.IH)
    then show ?thesis using False by (subst bitLength.simps) simp
  qed
qed

text \<open>An integer of fewer than 54 binary digits is its own double.\<close>

lemma roundToDouble_exact:
  assumes "\<bar>n\<bar> < 2 ^ 53"
  shows "roundToDouble n = Number n"
proof -
  have e: "bitLength \<bar>n\<bar> - 53 = 0" using bitLength_le[OF assms] by simp
  have small: "\<not> (2::int) ^ 1024 \<le> \<bar>n\<bar>"
  proof -
    have "(2::int) ^ 53 \<le> 2 ^ 1024" by (rule power_increasing) simp_all
    then show ?thesis using assms by linarith
  qed
  have "sgn n * \<bar>n\<bar> = n" by (simp add: sgn_if)
  then show ?thesis using small by (simp add: roundToDouble_def Let_def e)
qed

lemma digitsOf_shape:
  "\<exists>d ds. d < 10 \<and> digitsOf n = digitChar d # ds
     \<and> (\<forall>c \<in> set ds. \<exists>e<10. c = digitChar e)"
proof (induction n rule: digitsOf.induct)
  case (1 n)
  show ?case
  proof (cases "n < 10")
    case True
    then show ?thesis by (subst digitsOf.simps) auto
  next
    case False
    obtain d ds where h: "d < 10" "digitsOf (n div 10) = digitChar d # ds"
      "\<forall>c \<in> set ds. \<exists>e<10. c = digitChar e"
      using "1.IH"[OF False] by blast
    have last: "n mod 10 < 10" by simp
    have "digitsOf n = digitChar d # (ds @ [digitChar (n mod 10)])"
      using False h(2) by (subst digitsOf.simps) simp
    moreover have "\<forall>c \<in> set (ds @ [digitChar (n mod 10)]). \<exists>e<10. c = digitChar e"
      using h(3) last by (auto intro: exI[of _ "n mod 10"])
    ultimately show ?thesis using h(1) by blast
  qed
qed

lemma digitsValue_snoc:
  "digitsValue r (z @ [c]) =
     digitsValue r z * int r + (case digitValue c of None \<Rightarrow> 0 | Some v \<Rightarrow> int v)"
  by (simp add: digitsValue_def)

lemma digitsValue_digitsOf: "digitsValue 10 (digitsOf n) = int n"
proof (induction n rule: digitsOf.induct)
  case (1 n)
  show ?case
  proof (cases "n < 10")
    case True
    then show ?thesis by (subst digitsOf.simps) (simp add: digitsValue_def digitValue_digit)
  next
    case False
    have "digitsValue 10 (digitsOf n) =
            digitsValue 10 (digitsOf (n div 10)) * 10 + int (n mod 10)"
      using False by (subst digitsOf.simps) (simp add: digitsValue_snoc digitValue_digit)
    also have "\<dots> = int (n div 10) * 10 + int (n mod 10)"
      using "1.IH"[OF False] by simp
    also have "\<dots> = int n" by presburger
    finally show ?thesis .
  qed
qed

lemma takeWhile_digits:
  "\<forall>c \<in> set z. \<exists>e<10. c = digitChar e \<Longrightarrow> takeWhile (isDigitOf 10) z = z"
  by (induction z) (auto simp: isDigitOf_digit)

lemma no_hex_prefix:
  assumes "x = CHR ''x'' \<or> x = CHR ''X''"
    and "d < 10" and "\<forall>c \<in> set ds. \<exists>e<10. c = digitChar e"
  shows "take 2 (digitChar d # ds) \<noteq> [CHR ''0'', x]"
proof (cases ds)
  case Nil
  then show ?thesis by simp
next
  case (Cons c cs)
  then obtain e where "e < 10" "c = digitChar e" using assms(3) by auto
  then show ?thesis using Cons assms(1) digit_not_sign(3,4)[of e] by auto
qed

text \<open>The digits of a number, read after an optional minus sign.\<close>

lemma parseInt_digits:
  assumes "sign = [] \<or> sign = ''-''"
  shows "parseInt (sign @ digitsOf n) =
           roundToDouble ((if sign = ''-'' then - 1 else 1) * int n)"
proof -
  obtain d ds where h: "d < 10" "digitsOf n = digitChar d # ds"
    "\<forall>c \<in> set ds. \<exists>e<10. c = digitChar e"
    using digitsOf_shape by blast
  have all: "\<forall>c \<in> set (digitsOf n). \<exists>e<10. c = digitChar e"
    using h by auto
  have nohex: "take 2 (digitsOf n) \<noteq> ''0x''" "take 2 (digitsOf n) \<noteq> ''0X''"
    using no_hex_prefix[OF _ h(1,3)] h(2) by simp_all
  have nonempty: "digitsOf n \<noteq> []" using h(2) by simp
  have first: "\<not> isWhiteSpace (digitChar d)" "digitChar d \<noteq> CHR ''-''"
    "digitChar d \<noteq> CHR ''+''"
    using h(1) digit_not_space digit_not_sign(1,2) by simp_all
  have minus: "\<not> isWhiteSpace (CHR ''-'')" by (simp add: isWhiteSpace_def)
  show ?thesis
  proof (cases "sign = []")
    case True
    have sp: "dropWhile isWhiteSpace (digitsOf n) = digitsOf n"
      using h(2) first(1) by simp
    have sg: "take 1 (digitsOf n) \<noteq> ''-''" "take 1 (digitsOf n) \<noteq> ''+''"
      using h(2) first(2,3) by auto
    show ?thesis
      unfolding parseInt_def Let_def
      using True sp sg nohex nonempty
      by (simp add: takeWhile_digits[OF all] digitsValue_digitsOf)
  next
    case False
    then have s: "sign = ''-''" using assms by simp
    have sp: "dropWhile isWhiteSpace (CHR ''-'' # digitsOf n) = CHR ''-'' # digitsOf n"
      using minus by simp
    show ?thesis
      unfolding parseInt_def Let_def s append_Cons append_Nil sp
      using nohex nonempty
      by (simp add: takeWhile_digits[OF all] digitsValue_digitsOf)
  qed
qed

lemma parseInt_numberToString: "parseInt (numberToString i) = roundToDouble i"
proof (cases "i < 0")
  case True
  then show ?thesis
    using parseInt_digits[of "''-''" "nat (- i)"] by (simp add: numberToString_def)
next
  case False
  then show ?thesis
    using parseInt_digits[of "[]" "nat i"] by (simp add: numberToString_def)
qed

lemma parseInt_shown: "\<bar>i\<bar> < 2 ^ 53 \<Longrightarrow> parseInt (numberToString i) = Number i"
  by (simp add: parseInt_numberToString roundToDouble_exact)






lemma saveSettings_result:
  "UIController_saveSettings f w =
     map_option
       (\<lambda>s. let w1 = StorageManager_saveSettings s (w\<lparr>settings := s\<rparr>)
            in setMode (currentMode w1) w1)
       (toSettings (validate (readForm f)))"
  by (simp add: UIController_saveSettings_def split: option.splits)


lemma spread_toSaved: "spread base (toSaved s) = s"
  by (simp add: spread_def toSaved_def)

lemma spread_emptySaved: "spread base emptySaved = base"
  by (simp add: spread_def emptySaved_def)

text \<open>
  What the dialog shows of valid settings is read back unchanged, but for a volume
  of 0: \<open>parseInt("0") || 50\<close> is 50.
\<close>

lemma readForm_populate:
  assumes "validSettings s"
  shows "toSettings (validate (readForm (populateSettingsForm s))) =
           Some (s\<lparr>soundVolume := (if soundVolume s = 0 then 50 else soundVolume s)\<rparr>)"
proof -
  have small: "\<bar>i\<bar> < 2 ^ 53" if "\<bar>i\<bar> \<le> 100" for i :: int
    using that by simp
  have shown: "parseInt (numberToString (pomodoroMinutes s)) = Number (pomodoroMinutes s)"
    "parseInt (numberToString (shortBreakMinutes s)) = Number (shortBreakMinutes s)"
    "parseInt (numberToString (longBreakMinutes s)) = Number (longBreakMinutes s)"
    "parseInt (numberToString (longBreakInterval s)) = Number (longBreakInterval s)"
    "parseInt (numberToString (soundVolume s)) = Number (soundVolume s)"
    using assms by (auto simp: validSettings_def intro!: parseInt_shown small)
  show ?thesis
    using assms
    by (simp add: validSettings_def toSettings_def validate_def readForm_def
        populateSettingsForm_def shown orDefault_def numberValue_def)
qed

lemma settings_roundtrip_nonzero:
  assumes "validSettings s" and "soundVolume s \<noteq> 0" and "\<not> setItemThrows w"
  shows "map_option StorageManager_loadSettings
           (UIController_saveSettings (populateSettingsForm s) w) = Some s"
proof -
  have v: "toSettings (validate (readForm (populateSettingsForm s))) = Some s"
    using readForm_populate[OF assms(1)] assms(2) by simp
  show ?thesis
    using assms(3)
    by (simp add: saveSettings_result v Let_def StorageManager_loadSettings_def
        StorageManager_saveSettings_def save_def load_def setMode_def clearTimer_def
        spread_toSaved spread_emptySaved split: option.splits)
qed

text \<open>
  Beyond 53 binary digits the number read is the nearest double; a no-break space
  in front is white space, and what follows the digits is not read.
\<close>

lemma parseInt_examples:
  "parseInt ''9007199254740993'' = Number 9007199254740992"
  "parseInt ([CHR 0xA0] @ '' 42px'') = Number 42"
  "parseInt ''0x1F'' = Number 31"
  "parseInt ''abc'' = NaN"
  by code_simp+

section \<open>Facts about the session store\<close>

lemma newSession_fields:
  "date (newSession w) = toISODate (now w)"
  "hour (newSession w) = getHours (tz w) (now w)"
  "duration (newSession w) = pomodoroMinutes (settings w)"
  "sessionType (newSession w) = ''pomodoro''"
  by (simp_all add: newSession_def)

text \<open>
  A pomodoro that ends unskipped leaves in \<open>AppState.sessions\<close> what
  \<open>addSession\<close> returns for the session made at that instant. Its date is the
  UTC day and its hour the local hour; in the zone UTC the two agree.
\<close>

lemma complete_emits:
  "currentMode w = pomodoro \<Longrightarrow>
     sessions (completeTimer False w) = fst (addSession (newSession w) w)"
  by (simp add: timer_defs newSession_def loadSessions_def cutoff_def Let_def
      split: option.splits)

lemma session_date_in_utc: "tz w = 0 \<Longrightarrow> date (newSession w) = localDate (tz w) (now w)"
  by (simp add: newSession_def localDate_def toISODate_def)

lemma newYorkEvening_facts:
  "sessionsItem newYorkEvening = Item [oldSession, nextDaySession]"
  "\<not> getItemThrows newYorkEvening" "\<not> setItemThrows newYorkEvening"
  "now newYorkEvening = 1704155400000" "tz newYorkEvening = - 5 * msPerHour"
  "tzOfLocal newYorkEvening = easternTime"
  by (simp_all add: newYorkEvening_def boot_def pageLoad_def UIController_init_def
      StorageManager_loadSettings_def loadSessions_def load_def
      setMode_def clearTimer_def Let_def)

lemma utcEvening_facts:
  "sessionsItem utcEvening = Item [oldSession, nextDaySession]"
  "\<not> getItemThrows utcEvening" "\<not> setItemThrows utcEvening"
  "now utcEvening = 1704155400000" "tz utcEvening = 0"
  "tzOfLocal utcEvening = (\<lambda>l. 0)"
  by (simp_all add: utcEvening_def boot_def pageLoad_def UIController_init_def
      StorageManager_loadSettings_def loadSessions_def load_def
      setMode_def clearTimer_def Let_def)

section \<open>The claims about the statistics\<close>

text \<open>
  Claim C4 says that \<open>currentStreak()\<close> counts the days with a session back from
  today, so that sessions today and yesterday, and none the day before, give 2.
  East of UTC the code does not: in UTC+8 at 14:30 local time on 2024-01-02, with
  one session dated 2024-01-02 (day 19724, the date a session finished at this
  instant is given, and the day \<open>updateTodayStats\<close> filters on) and one dated
  2024-01-01, \<open>calculateStreak\<close> returns 1. Its \<open>today\<close> is the UTC day of local
  midnight, 2024-01-01: the walk starts at yesterday and never counts today.
\<close>

theorem calculateStreak_east_of_utc:
  "map date (sessions (twoDaysIn (8 * msPerHour))) = [19723, 19724]
   \<and> date (newSession (twoDaysIn (8 * msPerHour))) = 19724
   \<and> localDate (tz (twoDaysIn (8 * msPerHour))) (now (twoDaysIn (8 * msPerHour))) = 19724
   \<and> map date (todaySessions (twoDaysIn (8 * msPerHour))) = [19724]
   \<and> toISODate (setHoursMidnight (tz (twoDaysIn (8 * msPerHour)))
        (now (twoDaysIn (8 * msPerHour)))) = 19723
   \<and> calculateStreak (twoDaysIn (8 * msPerHour)) = 1"
  by code_simp

text \<open>
  Claim C5 says that \<open>periodStats(7)\<close>, on a store with one session of 30 minutes
  dated today in the hour 14, has 7 daily entries of which today's holds 30 minutes
  and 1 pomodoro. East of UTC the code does not: in UTC+8 at 14:30 local time on the
  day 19724, the 7 entries are the days 19717 to 19723, none is the day of the
  session, and all are zero, while the totals and the hourly series count the
  session. The entries are labelled with the UTC day of each local midnight, the
  day before the local one.
\<close>

theorem calculatePeriodStats_east_of_utc:
  "map date (sessions (oneSessionIn (8 * msPerHour))) = [19724]
   \<and> toISODate (now (oneSessionIn (8 * msPerHour))) = 19724
   \<and> localDate (tz (oneSessionIn (8 * msPerHour))) (now (oneSessionIn (8 * msPerHour))) = 19724
   \<and> getHours (tz (oneSessionIn (8 * msPerHour))) (now (oneSessionIn (8 * msPerHour))) = 14
   \<and> dailyData (calculatePeriodStats 7 (oneSessionIn (8 * msPerHour))) =
        [\<lparr>entryDate = 19717, minutes = 0, pomodoros = 0\<rparr>,
         \<lparr>entryDate = 19718, minutes = 0, pomodoros = 0\<rparr>,
         \<lparr>entryDate = 19719, minutes = 0, pomodoros = 0\<rparr>,
         \<lparr>entryDate = 19720, minutes = 0, pomodoros = 0\<rparr>,
         \<lparr>entryDate = 19721, minutes = 0, pomodoros = 0\<rparr>,
         \<lparr>entryDate = 19722, minutes = 0, pomodoros = 0\<rparr>,
         \<lparr>entryDate = 19723, minutes = 0, pomodoros = 0\<rparr>]
   \<and> totalMinutes (calculatePeriodStats 7 (oneSessionIn (8 * msPerHour))) = 30
   \<and> totalPomodoros (calculatePeriodStats 7 (oneSessionIn (8 * msPerHour))) = 1
   \<and> hourlyData (calculatePeriodStats 7 (oneSessionIn (8 * msPerHour))) ! 14 = Some 30"
  by code_simp

text \<open>
  Claim C7 says that the session a finished pomodoro stores carries the local date
  and the local hour of that instant. The hour is local (\<open>getHours\<close>), the date
  is not: \<open>toISOString\<close> gives the UTC day. In UTC+8 at 07:00 on 2024-01-02 (day
  19724) the session is stored under 2024-01-01 (day 19723), with the hour 7.
\<close>

theorem session_date_east_of_utc:
  "sessions (completeTimer False earlyMorning) =
     [\<lparr>date = 19723, hour = 7, duration = 25, sessionType = ''pomodoro'',
       timestamp = 1704150000000\<rparr>]
   \<and> localDate (tz earlyMorning) (now earlyMorning) = 19724
   \<and> getHours (tz earlyMorning) (now earlyMorning) = 7"
  by code_simp

section \<open>The claims about the settings\<close>




text \<open>
  Claim C9 says that valid settings come back unchanged from saving and loading.
  A volume of 0 does not: \<open>parseInt("0") || 50\<close> is 50, so the dialog showing the
  default settings with the volume at 0 saves, and then loads, a volume of 50.
\<close>

theorem saveSettings_volume_zero:
  "validSettings silent \<and> soundVolume silent = 0
   \<and> soundVolumeValue (populateSettingsForm silent) = ''0''
   \<and> map_option StorageManager_loadSettings
        (UIController_saveSettings (populateSettingsForm silent) quietStart)
      = Some (silent\<lparr>soundVolume := 50\<rparr>)"
  by code_simp

section \<open>The claim about the session store\<close>

text \<open>
  Claim C10: \<open>addSession(s)\<close> puts \<open>s\<close> at the end of the stored sequence
  (the empty one when nothing readable is stored), drops every entry whose date
  (at UTC midnight) is before now minus 90 days, keeps the others in their order,
  and stores and returns the result. Now minus 90 days is the instant at which
  the wall clock showed the same time 90 calendar days ago; where the zone's
  offset was then what it is now, that is 90 times 24 hours ago. A session dated
  91 days before the day of the clock is in neither the returned nor the stored
  sequence (the zone has not moved west by a day or more in between). The storage
  works: \<open>getItem\<close> and \<open>setItem\<close> do not throw.
\<close>

theorem addSession_prunes:
  assumes "\<not> getItemThrows w" and "\<not> setItemThrows w"
  shows "loadSessions w = (case sessionsItem w of Item xs \<Rightarrow> xs | _ \<Rightarrow> [])
       \<and> fst (addSession s w) =
           filter (\<lambda>x. \<not> parseISODate (date x)
                          < (now w + tz w - 90 * msPerDay)
                            - tzOfLocal w (now w + tz w - 90 * msPerDay))
             (loadSessions w @ [s])
       \<and> (tzOfLocal w (now w + tz w - 90 * msPerDay) = tz w \<longrightarrow>
            fst (addSession s w) =
              filter (\<lambda>x. \<not> parseISODate (date x) < now w - 90 * msPerDay)
                (loadSessions w @ [s]))
       \<and> sessionsItem (snd (addSession s w)) = Item (fst (addSession s w))
       \<and> loadSessions (snd (addSession s w)) = fst (addSession s w)
       \<and> (\<forall>old. tzOfLocal w (now w + tz w - 90 * msPerDay) - tz w < msPerDay
                \<and> date old = toISODate (now w) - 91
              \<longrightarrow> old \<notin> set (fst (addSession s w)))"
proof -
  let ?zl = "tzOfLocal w (now w + tz w - 90 * msPerDay)"
  have stored: "loadSessions w = (case sessionsItem w of Item xs \<Rightarrow> xs | _ \<Rightarrow> [])"
    using assms(1) by (simp add: loadSessions_def load_def split: item.splits)
  have cut: "cutoff w = (now w + tz w - 90 * msPerDay) - ?zl"
    by (simp add: cutoff_def setDateBy_def)
  have eq: "fst (addSession s w) =
      filter (\<lambda>x. \<not> parseISODate (date x) < (now w + tz w - 90 * msPerDay) - ?zl)
        (loadSessions w @ [s])"
    by (simp add: addSession_def cut Let_def not_less)
  have same: "fst (addSession s w) =
      filter (\<lambda>x. \<not> parseISODate (date x) < now w - 90 * msPerDay) (loadSessions w @ [s])"
    if "?zl = tz w"
    using that by (simp add: eq)
  have st: "sessionsItem (snd (addSession s w)) = Item (fst (addSession s w))"
    using assms(2) by (simp add: addSession_def saveSessions_def save_def Let_def)
  have ld: "loadSessions (snd (addSession s w)) = fst (addSession s w)"
    using assms st
    by (simp add: loadSessions_def load_def addSession_def saveSessions_def Let_def)
  have old: "old \<notin> set (fst (addSession s w))"
    if "?zl - tz w < msPerDay" "date old = toISODate (now w) - 91" for old
  proof -
    have "toISODate (now w) * msPerDay \<le> now w"
      by (simp add: toISODate_def msPerDay_def)
    then have "parseISODate (date old) \<le> now w - 91 * msPerDay"
      using that(2) by (simp add: parseISODate_def msPerDay_def)
    then have "parseISODate (date old) < (now w + tz w - 90 * msPerDay) - ?zl"
      using that(1) by (simp add: msPerDay_def)
    then show ?thesis by (auto simp: eq)
  qed
  show ?thesis using stored eq same st ld old by blast
qed

theorem addSession_prunes_witness:
  "sessionsItem newYorkEvening = Item [oldSession, nextDaySession]
   \<and> date oldSession = toISODate (now newYorkEvening) - 91
   \<and> tzOfLocal newYorkEvening (now newYorkEvening + tz newYorkEvening - 90 * msPerDay)
       = - 4 * msPerHour
   \<and> tz newYorkEvening = - 5 * msPerHour
   \<and> fst (addSession (newSession newYorkEvening) newYorkEvening)
       = [nextDaySession, newSession newYorkEvening]
   \<and> sessionsItem (snd (addSession (newSession newYorkEvening) newYorkEvening))
       = Item [nextDaySession, newSession newYorkEvening]
   \<and> sessionsItem utcEvening = Item [oldSession, nextDaySession]
   \<and> tzOfLocal utcEvening (now utcEvening + tz utcEvening - 90 * msPerDay) = tz utcEvening
   \<and> fst (addSession (newSession utcEvening) utcEvening) = [newSession utcEvening]
   \<and> sessionsItem (snd (addSession (newSession utcEvening) utcEvening))
       = Item [newSession utcEvening]"
proof -
  have h: "\<not> getItemThrows newYorkEvening" "\<not> setItemThrows newYorkEvening"
    by (simp_all add: newYorkEvening_facts)
  have stored: "sessionsItem newYorkEvening = Item [oldSession, nextDaySession]"
    by (simp add: newYorkEvening_facts)
  have d: "date oldSession = toISODate (now newYorkEvening) - 91"
    by (simp add: oldSession_def newYorkEvening_facts toISODate_def msPerDay_def)
  have z: "tzOfLocal newYorkEvening (now newYorkEvening + tz newYorkEvening - 90 * msPerDay)
             = - 4 * msPerHour"
    by (simp add: newYorkEvening_facts easternTime_def msPerDay_def msPerHour_def)
  have cut: "(now newYorkEvening + tz newYorkEvening - 90 * msPerDay)
               - tzOfLocal newYorkEvening
                   (now newYorkEvening + tz newYorkEvening - 90 * msPerDay)
             = 1696375800000"
    unfolding z by (simp add: newYorkEvening_facts msPerDay_def msPerHour_def)
  have dates: "parseISODate (date oldSession) = 1696291200000"
    "parseISODate (date nextDaySession) = 1696377600000"
    "parseISODate (date (newSession newYorkEvening)) = 1704153600000"
    by (simp_all add: oldSession_def nextDaySession_def newSession_fields
        newYorkEvening_facts parseISODate_def toISODate_def msPerDay_def)
  note pruned = addSession_prunes[OF h, of "newSession newYorkEvening"]
  have kept: "fst (addSession (newSession newYorkEvening) newYorkEvening)
                = [nextDaySession, newSession newYorkEvening]"
    using pruned by (simp add: cut dates stored)
  have item: "sessionsItem (snd (addSession (newSession newYorkEvening) newYorkEvening))
          = Item (fst (addSession (newSession newYorkEvening) newYorkEvening))"
    using pruned by blast
  have h': "\<not> getItemThrows utcEvening" "\<not> setItemThrows utcEvening"
    by (simp_all add: utcEvening_facts)
  have stored': "sessionsItem utcEvening = Item [oldSession, nextDaySession]"
    by (simp add: utcEvening_facts)
  have z': "tzOfLocal utcEvening (now utcEvening + tz utcEvening - 90 * msPerDay)
              = tz utcEvening"
    by (simp add: utcEvening_facts)
  have cut': "now utcEvening - 90 * msPerDay = 1696379400000"
    by (simp add: utcEvening_facts msPerDay_def)
  have date': "parseISODate (date (newSession utcEvening)) = 1704153600000"
    by (simp add: newSession_fields utcEvening_facts parseISODate_def toISODate_def
        msPerDay_def)
  note pruned' = addSession_prunes[OF h', of "newSession utcEvening"]
  have "loadSessions utcEvening = [oldSession, nextDaySession]"
    using pruned' by (simp add: stored')
  moreover have "fst (addSession (newSession utcEvening) utcEvening) =
      filter (\<lambda>x. \<not> parseISODate (date x) < now utcEvening - 90 * msPerDay)
        (loadSessions utcEvening @ [newSession utcEvening])"
    using pruned' z' by blast
  ultimately have kept': "fst (addSession (newSession utcEvening) utcEvening)
                 = [newSession utcEvening]"
    by (simp add: cut' dates(1,2) date')
  have item': "sessionsItem (snd (addSession (newSession utcEvening) utcEvening))
          = Item (fst (addSession (newSession utcEvening) utcEvening))"
    using pruned' by blast
  show ?thesis
    using stored d z kept item newYorkEvening_facts(5) stored' z' kept' item' by simp
qed

end
